theory Spec2Isabelle
  imports Main "HOL-Library.DAList"
begin

section \<open>Values, classes and the host object\<close>

text \<open>
  The repository is one abstract class, \<^verbatim>\<open>Mixin\<close> (abstract_mixin.ts), and a demo
  (example.ts). The framework copies the members of a mixin class onto an existing
  object (the host), calls the mixin's initializer on it, and remembers, per host, which
  mixins were applied, by which class, and how to destroy them.

  A class is identified by reference in the source. Here \<open>Mixin\<close> is the base class,
  \<open>Object\<close> the built-in class every prototype chain ends in, and \<open>Class l\<close> a class
  declared by the user of the framework, \<open>l\<close> standing for its identity; the text the
  source reads through \<^verbatim>\<open>.name\<close> is a separate field, since the registry is keyed by
  identity while initializers are looked up by name.
\<close>

datatype cid = Mixin | Object | Class string

text \<open>
  The values that occur: \<open>Fn c n\<close> is the function object declared as method \<open>n\<close> in
  the body of class \<open>c\<close>, \<open>Obj\<close> an object literal (a configuration object).
\<close>

datatype val =
    Undefined
  | Num int
  | Str string
  | Cls cid
  | Fn cid string
  | Obj "(string \<times> val) list"

text \<open>
  A property descriptor is a data property or an accessor (getter, setter).
  Every property is taken to be writable and configurable and every object extensible,
  which is what class bodies and plain assignments produce.
\<close>

datatype desc = Data val | Accessor val val

text \<open>
  A class declaration: the text of \<^verbatim>\<open>.name\<close>, the classes it extends (nearest first),
  and the own properties of its prototype other than \<^verbatim>\<open>constructor\<close>, in the order of
  the class body. (A class body cannot declare another member of that name: a method
  called \<^verbatim>\<open>constructor\<close> is the constructor.)
\<close>

record class_decl =
  cname :: string
  supers :: "cid list"
  members :: "(string \<times> desc) list"

text \<open>
  The prototype of \<^verbatim>\<open>Mixin\<close> itself carries \<^verbatim>\<open>mixinDestroys\<close>; the other methods of the
  class are static, and its two fields are instance fields.
\<close>

definition MixinDecl :: class_decl where
  "MixinDecl = \<lparr>cname = ''Mixin'', supers = [],
     members = [(''mixinDestroys'', Data (Fn Mixin ''mixinDestroys''))]\<rparr>"

text \<open>
  \<^verbatim>\<open>Object.prototype\<close> carries the functions of the language, and \<^verbatim>\<open>__proto__\<close> as an
  accessor. What they do when called is, like the code of every method, given by the
  table of method bodies.
\<close>

definition ObjectDecl :: class_decl where
  "ObjectDecl = \<lparr>cname = ''Object'', supers = [],
     members = [(''__defineGetter__'', Data (Fn Object ''__defineGetter__'')),
                (''__defineSetter__'', Data (Fn Object ''__defineSetter__'')),
                (''hasOwnProperty'', Data (Fn Object ''hasOwnProperty'')),
                (''__lookupGetter__'', Data (Fn Object ''__lookupGetter__'')),
                (''__lookupSetter__'', Data (Fn Object ''__lookupSetter__'')),
                (''isPrototypeOf'', Data (Fn Object ''isPrototypeOf'')),
                (''propertyIsEnumerable'', Data (Fn Object ''propertyIsEnumerable'')),
                (''toString'', Data (Fn Object ''toString'')),
                (''valueOf'', Data (Fn Object ''valueOf'')),
                (''__proto__'', Accessor (Fn Object ''get __proto__'') (Fn Object ''set __proto__'')),
                (''toLocaleString'', Data (Fn Object ''toLocaleString''))]\<rparr>"

type_synonym classes = "string \<Rightarrow> class_decl"

fun decl :: "classes \<Rightarrow> cid \<Rightarrow> class_decl" where
  "decl ct Mixin = MixinDecl"
| "decl ct Object = ObjectDecl"
| "decl ct (Class l) = ct l"

text \<open>
  A registry entry (the value type of the \<^verbatim>\<open>mixinsApplied\<close> map). \<open>destroyMethod\<close> is
  the function that was bound to the host when the entry was made.
\<close>

record entry =
  classApplyingMixin :: cid
  destroyMethod :: val

text \<open>
  \<^verbatim>\<open>mixinsDestroyed\<close> is a number or absent; \<^verbatim>\<open>undefined++\<close> gives \<^verbatim>\<open>NaN\<close>.
\<close>

datatype counter = CUndefined | CNum nat | CNaN

datatype line = Log string | Error string

text \<open>
  The host object, with what the framework reads beside it.
  \<^item> \<open>cls\<close>: the class the object was constructed from (its prototype chain).
  \<^item> \<open>constructor\<close>: what \<^verbatim>\<open>host.constructor\<close> evaluates to; always a class here.
  \<^item> \<open>own\<close>: the own properties other than \<^verbatim>\<open>constructor\<close> and the two private fields
    below (TypeScript's \<^verbatim>\<open>private\<close> keeps mixins from declaring members of these names).
  \<^item> \<open>mixinsApplied\<close>: the private field; a JavaScript \<^verbatim>\<open>Map\<close> iterates in insertion
    order and holds a key once, so it is an association list with distinct keys.
  \<^item> \<open>mixinsDestroyed\<close>: the private counter.
  \<^item> \<open>multiMixin\<close>: for each class, whether its static \<^verbatim>\<open>multiMixin\<close> is truthy. It is
    state: the class comment tells mixin authors to set it in the initializer.
  \<^item> \<open>console\<close>: what was written with \<^verbatim>\<open>console.log\<close> and \<^verbatim>\<open>console.error\<close>.
\<close>

record state =
  cls :: cid
  constructor :: cid
  own :: "string \<rightharpoonup> desc"
  mixinsApplied :: "(cid, entry) alist option"
  mixinsDestroyed :: counter
  multiMixin :: "cid \<Rightarrow> bool"
  console :: "line list"

text \<open>
  Exceptions. \<open>Stuck\<close> is not an exception of the source: it marks a step this model does
  not cover (calling an accessor, converting a class to a string, recursion deeper than
  the fuel of the demo's method table).
\<close>

datatype error = TypeError | Thrown val | Stuck

text \<open>
  The code of the methods is a parameter: \<open>bd c n arg st\<close> runs the function \<open>Fn c n\<close>
  with \<^verbatim>\<open>this\<close> the host in state \<open>st\<close> and one argument, and returns the exception
  thrown or the value returned and the new state.
\<close>

type_synonym bodies = "cid \<Rightarrow> string \<Rightarrow> val \<Rightarrow> state \<Rightarrow> error + val \<times> state"

definition bindE :: "error + 'a \<Rightarrow> ('a \<Rightarrow> error + 'b) \<Rightarrow> error + 'b" where
  "bindE r f = (case r of Inl e \<Rightarrow> Inl e | Inr x \<Rightarrow> f x)"

text \<open>\<^verbatim>\<open>xs.forEach(f)\<close> where \<open>f\<close> may throw: the first exception ends the loop.\<close>

fun forEach :: "('a \<Rightarrow> 's \<Rightarrow> error + 's) \<Rightarrow> 'a list \<Rightarrow> 's \<Rightarrow> error + 's" where
  "forEach f [] s = Inr s"
| "forEach f (x # xs) s = bindE (f x s) (forEach f xs)"

section \<open>Property access\<close>

text \<open>The own property \<open>n\<close> of the prototype of \<open>c\<close>; a later member of the same name
  replaces an earlier one. A property the host does not own is looked up along the
  classes it was constructed from, and last on \<^verbatim>\<open>Object.prototype\<close>, where the chain of
  every class ends.\<close>

definition protoDesc :: "classes \<Rightarrow> cid \<Rightarrow> string \<Rightarrow> desc option" where
  "protoDesc ct c n = map_of (rev (members (decl ct c))) n"

fun inherited :: "classes \<Rightarrow> cid list \<Rightarrow> string \<Rightarrow> desc option" where
  "inherited ct [] n = None"
| "inherited ct (c # cs) n =
     (case protoDesc ct c n of Some d \<Rightarrow> Some d | None \<Rightarrow> inherited ct cs n)"

definition getDesc :: "classes \<Rightarrow> state \<Rightarrow> string \<Rightarrow> desc option" where
  "getDesc ct st n =
     (case own st n of
        Some d \<Rightarrow> Some d
      | None \<Rightarrow> inherited ct (cls st # supers (decl ct (cls st)) @ [Object]) n)"

text \<open>\<^verbatim>\<open>host[n]\<close>.\<close>

definition getProp :: "classes \<Rightarrow> string \<Rightarrow> state \<Rightarrow> error + val" where
  "getProp ct n st =
     (if n = ''constructor'' then Inr (Cls (constructor st))
      else case getDesc ct st n of
             None \<Rightarrow> Inr Undefined
           | Some (Data v) \<Rightarrow> Inr v
           | Some (Accessor g s) \<Rightarrow> Inl Stuck)"

text \<open>\<^verbatim>\<open>host[n] = v\<close> (strict mode) and \<^verbatim>\<open>delete host[n]\<close>, for \<open>n\<close> other than
  \<^verbatim>\<open>constructor\<close>.\<close>

definition setProp :: "classes \<Rightarrow> string \<Rightarrow> val \<Rightarrow> state \<Rightarrow> error + state" where
  "setProp ct n v st =
     (case getDesc ct st n of
        Some (Accessor g s) \<Rightarrow> Inl Stuck
      | _ \<Rightarrow> Inr (st\<lparr>own := (own st)(n \<mapsto> Data v)\<rparr>))"

definition deleteProp :: "string \<Rightarrow> state \<Rightarrow> state" where
  "deleteProp n st = st\<lparr>own := (own st)(n := None)\<rparr>"

text \<open>Calling a value with \<^verbatim>\<open>this\<close> the host. A class cannot be called without
  \<^verbatim>\<open>new\<close>; the other values are not functions.\<close>

definition callVal :: "bodies \<Rightarrow> val \<Rightarrow> val \<Rightarrow> state \<Rightarrow> error + val \<times> state" where
  "callVal bd f arg st = (case f of Fn c n \<Rightarrow> bd c n arg st | _ \<Rightarrow> Inl TypeError)"

text \<open>\<^verbatim>\<open>host[n](arg)\<close>.\<close>

definition callMethod :: "classes \<Rightarrow> bodies \<Rightarrow> string \<Rightarrow> val \<Rightarrow> state \<Rightarrow> error + val \<times> state" where
  "callMethod ct bd n arg st = bindE (getProp ct n st) (\<lambda>f. callVal bd f arg st)"

text \<open>\<^verbatim>\<open>f.bind(host)\<close>: functions and classes have \<^verbatim>\<open>bind\<close>, nothing else here has.\<close>

definition bindThis :: "val \<Rightarrow> error + val" where
  "bindThis f = (case f of Fn c n \<Rightarrow> Inr f | Cls c \<Rightarrow> Inr f | _ \<Rightarrow> Inl TypeError)"

section \<open>The framework: abstract\_mixin.ts\<close>

text \<open>\<^verbatim>\<open>Mixin.hasMixin\<close>.\<close>

definition hasMixin :: "state \<Rightarrow> cid \<Rightarrow> bool" where
  "hasMixin instanceWithMixins mixinClass =
     (case mixinsApplied instanceWithMixins of
        None \<Rightarrow> False
      | Some reg \<Rightarrow> DAList.lookup reg mixinClass \<noteq> None)"

text \<open>
  \<^verbatim>\<open>Mixin.applyMixin\<close>. The own properties of a class prototype are \<^verbatim>\<open>constructor\<close>,
  whose value is the class, and its members. \<^verbatim>\<open>Object.defineProperty\<close> replaces the
  host's property by the descriptor it is given.
\<close>

definition defineProperty :: "state \<Rightarrow> string \<Rightarrow> desc \<Rightarrow> state" where
  "defineProperty st n d = st\<lparr>own := (own st)(n \<mapsto> d)\<rparr>"

definition applyMixin :: "classes \<Rightarrow> cid \<Rightarrow> state \<Rightarrow> state" where
  "applyMixin ct mixinClass st =
     (let constructorSave = constructor st;
          st1 = st\<lparr>constructor := mixinClass\<rparr>;
          st2 = fold (\<lambda>(name, d) s. defineProperty s name d) (members (decl ct mixinClass)) st1
      in st2\<lparr>constructor := constructorSave\<rparr>)"

text \<open>
  An argument of \<^verbatim>\<open>mixinInits\<close> after the first two: a mixin class, or an object
  \<^verbatim>\<open>{mixin, conf, multiMixin}\<close> of which \<open>With\<close> keeps the class, the configuration
  (\<open>Undefined\<close> when absent) and whether the object's own \<^verbatim>\<open>multiMixin\<close> is truthy.
  A class is taken to have no static property named \<^verbatim>\<open>mixin\<close> or \<^verbatim>\<open>conf\<close>.
\<close>

datatype request = Bare cid | With cid val bool

fun mixinOf :: "request \<Rightarrow> cid" where
  "mixinOf (Bare c) = c"
| "mixinOf (With c v b) = c"

fun confOf :: "request \<Rightarrow> val" where
  "confOf (Bare c) = Undefined"
| "confOf (With c v b) = v"

text \<open>\<^verbatim>\<open>mixinClass.multiMixin || mixinClass.mixin?.multiMixin\<close>.\<close>

fun repeatInit :: "state \<Rightarrow> request \<Rightarrow> bool" where
  "repeatInit st (Bare c) = multiMixin st c"
| "repeatInit st (With c v b) = (b \<or> multiMixin st c)"

text \<open>
  What the framework itself called, in order: \<open>Init m conf\<close> for the call
  \<^verbatim>\<open>host[m.name](conf)\<close> of \<^verbatim>\<open>mixinInits\<close>, \<open>Destroy m\<close> for the call of the
  \<^verbatim>\<open>destroyMethod\<close> of the registry entry of \<open>m\<close> in \<^verbatim>\<open>mixinDestroys\<close>. The list is
  returned beside the state, so that the code of the methods cannot change it.
\<close>

datatype event = Init cid val | Destroy cid

text \<open>The body of the loop of \<^verbatim>\<open>mixinInits\<close>.\<close>

definition mixinInit :: "classes \<Rightarrow> bodies \<Rightarrow> cid \<Rightarrow> request \<Rightarrow> state \<times> event list
    \<Rightarrow> error + state \<times> event list" where
  "mixinInit ct bd classOfInstance mixinClass = (\<lambda>(st, evs).
     let m = mixinOf mixinClass;
         doesNotHaveMixin = \<not> hasMixin st m;
         st1 = (if doesNotHaveMixin then applyMixin ct m st else st)
     in bindE
          (if repeatInit st1 mixinClass \<or> doesNotHaveMixin
           then bindE (callMethod ct bd (cname (decl ct m)) (confOf mixinClass) st1)
                  (\<lambda>(r, st2). Inr (st2, evs @ [Init m (confOf mixinClass)]))
           else Inr (st1, evs))
          (\<lambda>(st2, evs2).
             if doesNotHaveMixin then
               (case mixinsApplied st2 of
                  None \<Rightarrow> Inl TypeError
                | Some reg \<Rightarrow>
                    bindE (getProp ct (cname (decl ct m) @ ''Destroy'') st2) (\<lambda>f.
                    bindE (bindThis f) (\<lambda>bound.
                      Inr (st2\<lparr>mixinsApplied := Some (DAList.update m
                             \<lparr>classApplyingMixin = classOfInstance, destroyMethod = bound\<rparr> reg)\<rparr>,
                           evs2))))
             else Inr (st2, evs2)))"

text \<open>\<^verbatim>\<open>Mixin.mixinInits\<close>.\<close>

definition mixinInits :: "classes \<Rightarrow> bodies \<Rightarrow> cid \<Rightarrow> request list \<Rightarrow> state
    \<Rightarrow> error + state \<times> event list" where
  "mixinInits ct bd classOfInstance mixinClasses instanceApplyingMixin =
     (let st0 = (if mixinsApplied instanceApplyingMixin = None
                 then (applyMixin ct Mixin instanceApplyingMixin)\<lparr>mixinsApplied := Some DAList.empty\<rparr>
                 else instanceApplyingMixin)
      in forEach (mixinInit ct bd classOfInstance) mixinClasses (st0, []))"

text \<open>\<^verbatim>\<open>this.mixinsDestroyed++\<close>.\<close>

fun incr :: "counter \<Rightarrow> counter" where
  "incr (CNum n) = CNum (Suc n)"
| "incr CUndefined = CNaN"
| "incr CNaN = CNaN"

text \<open>The body of the loop of \<^verbatim>\<open>mixinDestroys\<close>.\<close>

definition mixinDestroy :: "bodies \<Rightarrow> cid \<times> entry \<Rightarrow> state \<times> event list
    \<Rightarrow> error + state \<times> event list" where
  "mixinDestroy bd mixin = (\<lambda>(st, evs).
     bindE (callVal bd (destroyMethod (snd mixin)) Undefined st) (\<lambda>(r, st1).
       Inr (st1\<lparr>mixinsDestroyed := incr (mixinsDestroyed st1)\<rparr>, evs @ [Destroy (fst mixin)])))"

text \<open>\<^verbatim>\<open>Mixin.prototype.mixinDestroys\<close>, \<^verbatim>\<open>this\<close> being the host.\<close>

definition mixinDestroys :: "bodies \<Rightarrow> cid \<Rightarrow> state \<Rightarrow> error + state \<times> event list" where
  "mixinDestroys bd classApplying st =
     (case mixinsApplied st of
        None \<Rightarrow> Inr (st, [])
      | Some reg \<Rightarrow>
          let tempArray = rev (filter (\<lambda>value. classApplyingMixin (snd value) = classApplying)
                                 (DAList.impl_of reg));
              st1 = (if mixinsDestroyed st = CUndefined then st\<lparr>mixinsDestroyed := CNum 0\<rparr> else st)
          in bindE (forEach (mixinDestroy bd) tempArray (st1, [])) (\<lambda>(st2, evs).
               case mixinsApplied st2 of
                 None \<Rightarrow> Inl TypeError
               | Some reg2 \<Rightarrow>
                   if CNum (length (DAList.impl_of reg2)) = mixinsDestroyed st2
                   then Inr (st2\<lparr>mixinsApplied := None, mixinsDestroyed := CUndefined\<rparr>, evs)
                   else Inr (st2, evs)))"

text \<open>\<^verbatim>\<open>x instanceof C\<close> for an object constructed from class \<open>cls\<close>: \<open>C\<close> is on the
  prototype chain of the object.\<close>

definition instanceOf :: "classes \<Rightarrow> state \<Rightarrow> cid \<Rightarrow> bool" where
  "instanceOf ct st c = (c = cls st \<or> c \<in> set (supers (decl ct (cls st))) \<or> c = Object)"

text \<open>\<^verbatim>\<open>Mixin.notApplicable\<close>: the new state (the console) and the value returned.\<close>

definition notApplicable :: "classes \<Rightarrow> state \<Rightarrow> cid \<Rightarrow> cid \<Rightarrow> state \<times> bool" where
  "notApplicable ct instanceApplyingMixin mixinClass instanceRequiredClass =
     (if \<not> instanceOf ct instanceApplyingMixin instanceRequiredClass
         \<and> \<not> hasMixin instanceApplyingMixin instanceRequiredClass
      then (instanceApplyingMixin\<lparr>console := console instanceApplyingMixin @
              [Error (cname (decl ct (constructor instanceApplyingMixin)) @ '' is not an instance of ''
                 @ cname (decl ct instanceRequiredClass) @ '' and can not use mixin ''
                 @ cname (decl ct mixinClass)
                 @ ''. Correct this fault as it can lead to unpredictable behaviour.'')]\<rparr>,
            True)
      else (instanceApplyingMixin, False))"

section \<open>The demo: example.ts\<close>

text \<open>The fragment of JavaScript's expressions the demo uses.\<close>

definition truthy :: "val \<Rightarrow> bool" where
  "truthy v = (case v of Undefined \<Rightarrow> False | Num i \<Rightarrow> i \<noteq> 0 | Str s \<Rightarrow> s \<noteq> [] | _ \<Rightarrow> True)"

text \<open>\<^verbatim>\<open>a || b\<close>, both already evaluated (\<open>b\<close> is a literal where it is used).\<close>

definition jsOr :: "val \<Rightarrow> val \<Rightarrow> val" where
  "jsOr a b = (if truthy a then a else b)"

fun showNat :: "nat \<Rightarrow> string" where
  "showNat n =
     (if n < 10 then [''0123456789'' ! n]
      else showNat (n div 10) @ [''0123456789'' ! (n mod 10)])"

declare showNat.simps [simp del]

text \<open>The text of a number that is an integer (below \<open>10^21\<close> in size, as the source
  prints digits only there).\<close>

definition showInt :: "int \<Rightarrow> string" where
  "showInt i = (if i < 0 then ''-'' @ showNat (nat (- i)) else showNat (nat i))"

text \<open>\<^verbatim>\<open>a + b\<close>: concatenation when one side is a string, addition of two numbers.
  The other cases (\<^verbatim>\<open>NaN\<close>, the text of an object or a function) are not modelled.\<close>

fun jsAdd :: "val \<Rightarrow> val \<Rightarrow> error + val" where
  "jsAdd (Str s) (Str t) = Inr (Str (s @ t))"
| "jsAdd (Str s) (Num i) = Inr (Str (s @ showInt i))"
| "jsAdd (Str s) Undefined = Inr (Str (s @ ''undefined''))"
| "jsAdd (Num i) (Str t) = Inr (Str (showInt i @ t))"
| "jsAdd Undefined (Str t) = Inr (Str (''undefined'' @ t))"
| "jsAdd (Num i) (Num j) = Inr (Num (i + j))"
| "jsAdd a b = Inl Stuck"

text \<open>\<^verbatim>\<open>conf.defaultValue\<close>: reading a property of \<^verbatim>\<open>undefined\<close> throws.\<close>

definition getField :: "val \<Rightarrow> string \<Rightarrow> error + val" where
  "getField v n =
     (case v of
        Undefined \<Rightarrow> Inl TypeError
      | Obj fs \<Rightarrow> (case map_of (rev fs) n of Some x \<Rightarrow> Inr x | None \<Rightarrow> Inr Undefined)
      | _ \<Rightarrow> Inr Undefined)"

abbreviation MixinNumber :: cid where "MixinNumber \<equiv> Class ''MixinNumber''"
abbreviation MixinString :: cid where "MixinString \<equiv> Class ''MixinString''"
abbreviation BaseClass :: cid where "BaseClass \<equiv> Class ''BaseClass''"
abbreviation Combinator :: cid where "Combinator \<equiv> Class ''Combinator''"

text \<open>The classes of example.ts. A label that names none of them stands for a class
  with no members that extends nothing.\<close>

definition exampleClasses :: classes where
  "exampleClasses l =
     (if l = ''MixinNumber'' then
        \<lparr>cname = ''MixinNumber'', supers = [Mixin],
         members = [(''MixinNumber'', Data (Fn MixinNumber ''MixinNumber'')),
                    (''MixinNumberDestroy'', Data (Fn MixinNumber ''MixinNumberDestroy'')),
                    (''getNumber'', Data (Fn MixinNumber ''getNumber''))]\<rparr>
      else if l = ''MixinString'' then
        \<lparr>cname = ''MixinString'', supers = [Mixin],
         members = [(''MixinString'', Data (Fn MixinString ''MixinString'')),
                    (''MixinStringDestroy'', Data (Fn MixinString ''MixinStringDestroy'')),
                    (''getString'', Data (Fn MixinString ''getString'')),
                    (''joinWithNumber'', Data (Fn MixinString ''joinWithNumber''))]\<rparr>
      else if l = ''BaseClass'' then
        \<lparr>cname = ''BaseClass'', supers = [], members = []\<rparr>
      else if l = ''Combinator'' then
        \<lparr>cname = ''Combinator'', supers = [BaseClass],
         members = [(''destroy'', Data (Fn Combinator ''destroy''))]\<rparr>
      else \<lparr>cname = l, supers = [], members = []\<rparr>)"

text \<open>
  The methods of the two mixins of example.ts. A method that calls a method of
  \<^verbatim>\<open>this\<close> finds it through the host's property, so the table refers to itself; the
  first argument bounds the depth of such calls, and a call with no fuel left is \<open>Stuck\<close>.
  \<^verbatim>\<open>Combinator.destroy\<close> is not in the table: it is \<open>destroy\<close> below, which also
  returns what \<^verbatim>\<open>mixinDestroys\<close> called.
\<close>

fun exampleBodies :: "nat \<Rightarrow> bodies" where
  "exampleBodies 0 c n arg this = Inl Stuck"
| "exampleBodies (Suc k) c n arg this =
     (if c = MixinNumber \<and> n = ''MixinNumber'' then
        bindE (setProp exampleClasses ''myNumber'' (Num 1) this) (\<lambda>s. Inr (Undefined, s))
      else if c = MixinNumber \<and> n = ''MixinNumberDestroy'' then
        Inr (Undefined, deleteProp ''myNumber'' this)
      else if c = MixinNumber \<and> n = ''getNumber'' then
        bindE (getProp exampleClasses ''myNumber'' this) (\<lambda>v. Inr (v, this))
      else if c = MixinString \<and> n = ''MixinString'' then
        (case notApplicable exampleClasses this MixinString MixinNumber of
           (s, True) \<Rightarrow> Inr (Undefined, s)
         | (s, False) \<Rightarrow>
             bindE (getField arg ''defaultValue'') (\<lambda>v.
             bindE (setProp exampleClasses ''myString'' v s) (\<lambda>s1. Inr (Undefined, s1))))
      else if c = MixinString \<and> n = ''MixinStringDestroy'' then
        Inr (Undefined, deleteProp ''myString'' this)
      else if c = MixinString \<and> n = ''getString'' then
        bindE (getProp exampleClasses ''myString'' this) (\<lambda>v.
          Inr (jsOr v (Str ''My value: ''), this))
      else if c = MixinString \<and> n = ''joinWithNumber'' then
        bindE (callMethod exampleClasses (exampleBodies k) ''getString'' Undefined this) (\<lambda>(a, s1).
        bindE (callMethod exampleClasses (exampleBodies k) ''getNumber'' Undefined s1) (\<lambda>(b, s2).
        bindE (jsAdd a b) (\<lambda>v.
        bindE (setProp exampleClasses ''myString'' v s2) (\<lambda>s3. Inr (Undefined, s3)))))
      else Inl Stuck)"

text \<open>An object as \<^verbatim>\<open>new\<close> hands it to the constructor of class \<open>c\<close>, in a program
  where no class has set \<^verbatim>\<open>multiMixin\<close>.\<close>

definition newObject :: "cid \<Rightarrow> state" where
  "newObject c = \<lparr>cls = c, constructor = c, own = Map.empty, mixinsApplied = None,
     mixinsDestroyed = CUndefined, multiMixin = (\<lambda>m. False), console = []\<rparr>"

definition consoleLog :: "string \<Rightarrow> state \<Rightarrow> state" where
  "consoleLog s st = st\<lparr>console := console st @ [Log s]\<rparr>"

text \<open>\<^verbatim>\<open>new Combinator()\<close>: the constructor of \<^verbatim>\<open>BaseClass\<close>, then \<^verbatim>\<open>mixinInits\<close>.\<close>

definition newCombinator :: "nat \<Rightarrow> error + state \<times> event list" where
  "newCombinator k =
     mixinInits exampleClasses (exampleBodies k) Combinator
       [Bare MixinNumber, With MixinString (Obj [(''defaultValue'', Str ''Fave nr is: '')]) False]
       (consoleLog ''BaseClass is here!'' (newObject Combinator))"

text \<open>\<^verbatim>\<open>console.log(v)\<close> for a string; the print of other values is not modelled.\<close>

definition consoleLogVal :: "val \<Rightarrow> state \<Rightarrow> error + state" where
  "consoleLogVal v st = (case v of Str s \<Rightarrow> Inr (consoleLog s st) | _ \<Rightarrow> Inl Stuck)"

text \<open>The script at the end of example.ts; it returns the two values it prints and the
  console at its end.\<close>

definition demo :: "nat \<Rightarrow> error + val \<times> val \<times> line list" where
  "demo k =
     bindE (newCombinator k) (\<lambda>(combinator, evs).
     bindE (callMethod exampleClasses (exampleBodies k) ''getString'' Undefined combinator) (\<lambda>(v1, c1).
     bindE (consoleLogVal v1 c1) (\<lambda>c2.
     bindE (callMethod exampleClasses (exampleBodies k) ''joinWithNumber'' Undefined c2) (\<lambda>(r, c3).
     bindE (callMethod exampleClasses (exampleBodies k) ''getString'' Undefined c3) (\<lambda>(v2, c4).
     bindE (consoleLogVal v2 c4) (\<lambda>c5.
       Inr (v1, v2, console c5)))))))"

text \<open>\<^verbatim>\<open>Combinator.destroy\<close>: \<^verbatim>\<open>this.mixinDestroys(Combinator)\<close>, the host having the
  method since \<^verbatim>\<open>mixinInits\<close> applied \<^verbatim>\<open>Mixin\<close> to it.\<close>

definition destroy :: "nat \<Rightarrow> state \<Rightarrow> error + state \<times> event list" where
  "destroy k this =
     bindE (getProp exampleClasses ''mixinDestroys'' this) (\<lambda>f.
       if f = Fn Mixin ''mixinDestroys'' then mixinDestroys (exampleBodies k) Combinator this
       else Inl Stuck)"

section \<open>Sequences of calls and what the methods may touch\<close>

text \<open>A host's life is a sequence of \<^verbatim>\<open>mixinInits\<close> and \<^verbatim>\<open>mixinDestroys\<close> calls;
  \<open>runCalls\<close> returns the last state and, for each call, what it called.\<close>

datatype call = Inits cid "request list" | Destroys cid

fun runCall :: "classes \<Rightarrow> bodies \<Rightarrow> call \<Rightarrow> state \<Rightarrow> error + state \<times> event list" where
  "runCall ct bd (Inits c rs) st = mixinInits ct bd c rs st"
| "runCall ct bd (Destroys c) st = mixinDestroys bd c st"

fun runCalls :: "classes \<Rightarrow> bodies \<Rightarrow> call list \<Rightarrow> state \<Rightarrow> error + state \<times> event list list" where
  "runCalls ct bd [] st = Inr (st, [])"
| "runCalls ct bd (c # cs) st =
     bindE (runCall ct bd c st) (\<lambda>(st1, evs).
     bindE (runCalls ct bd cs st1) (\<lambda>(st2, evss). Inr (st2, evs # evss)))"

definition finalOf :: "error + state \<times> 'e \<Rightarrow> state option" where
  "finalOf r = (case r of Inl e \<Rightarrow> None | Inr (st, evs) \<Rightarrow> Some st)"

definition eventsOf :: "error + state \<times> 'e \<Rightarrow> 'e option" where
  "eventsOf r = (case r of Inl e \<Rightarrow> None | Inr (st, evs) \<Rightarrow> Some evs)"

text \<open>
  The code of initializers and finalizers is not part of the framework, and some
  properties of the framework hold only for code that keeps to its own business.
  \<open>keepsPrivate bd f\<close>: the function \<open>f\<close>, when it returns, has left the two private
  fields of \<^verbatim>\<open>Mixin\<close> as they were. \<open>keepsMembers ct bd f u\<close>: it has left every
  property that has the name of a member of mixin \<open>u\<close> as it was.
\<close>

definition keepsPrivate :: "bodies \<Rightarrow> val \<Rightarrow> bool" where
  "keepsPrivate bd f =
     (\<forall>a s v s'. callVal bd f a s = Inr (v, s') \<longrightarrow>
        mixinsApplied s' = mixinsApplied s \<and> mixinsDestroyed s' = mixinsDestroyed s)"

definition keepsMembers :: "classes \<Rightarrow> bodies \<Rightarrow> val \<Rightarrow> cid \<Rightarrow> bool" where
  "keepsMembers ct bd f u =
     (\<forall>a s v s'. callVal bd f a s = Inr (v, s') \<longrightarrow>
        (\<forall>n. protoDesc ct u n \<noteq> None \<longrightarrow> own s' n = own s n))"

text \<open>The keys of the registry entries made by class \<open>c\<close>, in insertion order.\<close>

definition appliedBy :: "cid \<Rightarrow> (cid, entry) alist \<Rightarrow> cid list" where
  "appliedBy c reg =
     map fst (filter (\<lambda>value. classApplyingMixin (snd value) = c) (DAList.impl_of reg))"

section \<open>Notions used to state the properties\<close>

text \<open>The first step of \<^verbatim>\<open>mixinInits\<close>: the registry is made, and \<^verbatim>\<open>Mixin\<close> applied, when
  the host has none.\<close>

definition ensureRegistry :: "classes \<Rightarrow> state \<Rightarrow> state" where
  "ensureRegistry ct st =
     (if mixinsApplied st = None
      then (applyMixin ct Mixin st)\<lparr>mixinsApplied := Some DAList.empty\<rparr>
      else st)"

text \<open>The first steps of \<^verbatim>\<open>mixinDestroys\<close>: the counter starts at zero when it is absent,
  and \<open>selected\<close> is \<^verbatim>\<open>tempArray\<close>.\<close>

definition startCounter :: "state \<Rightarrow> state" where
  "startCounter st =
     (if mixinsDestroyed st = CUndefined then st\<lparr>mixinsDestroyed := CNum 0\<rparr> else st)"

definition selected :: "cid \<Rightarrow> (cid, entry) alist \<Rightarrow> (cid \<times> entry) list" where
  "selected c reg =
     rev (filter (\<lambda>value. classApplyingMixin (snd value) = c) (DAList.impl_of reg))"

text \<open>
  To say which code has run, and on which state, the properties below speak of the table
  of method bodies itself. \<open>callAll bd fs st\<close> runs the bodies of the functions \<open>fs\<close> on
  the host one after the other, without argument, and counts each return in
  \<^verbatim>\<open>mixinsDestroyed\<close>; the first exception ends it, and so does a value that is not a
  function. \<open>finalizersIn c l\<close> are the bound finalizers of the entries of
  \<open>l\<close> made by class \<open>c\<close>, last entry first, and \<open>retired\<close> is the last step of
  \<^verbatim>\<open>mixinDestroys\<close>: registry and counter are removed when the counter equals the size of
  the registry.
\<close>

primrec callAll :: "bodies \<Rightarrow> val list \<Rightarrow> state \<Rightarrow> error + state" where
  "callAll bd [] st = Inr st"
| "callAll bd (f # fs) st =
     (case f of
        Fn c n \<Rightarrow>
          bindE (bd c n Undefined st) (\<lambda>(r, st1).
            callAll bd fs (st1\<lparr>mixinsDestroyed := incr (mixinsDestroyed st1)\<rparr>))
      | _ \<Rightarrow> Inl TypeError)"

definition finalizersIn :: "cid \<Rightarrow> (cid \<times> entry) list \<Rightarrow> val list" where
  "finalizersIn c l =
     map (\<lambda>value. destroyMethod (snd value))
       (rev (filter (\<lambda>value. classApplyingMixin (snd value) = c) l))"

definition retired :: "state \<Rightarrow> state" where
  "retired st =
     (case mixinsApplied st of
        None \<Rightarrow> st
      | Some reg \<Rightarrow>
          if CNum (length (DAList.impl_of reg)) = mixinsDestroyed st
          then st\<lparr>mixinsApplied := None, mixinsDestroyed := CUndefined\<rparr>
          else st)"

text \<open>The number a counter holds, an absent counter counting as zero.\<close>

definition counted :: "counter \<Rightarrow> nat" where
  "counted c = (case c of CNum n \<Rightarrow> n | _ \<Rightarrow> 0)"

text \<open>The entries of the registry in insertion order, when the host has a registry.\<close>

definition registryOf :: "state \<Rightarrow> (cid \<times> entry) list option" where
  "registryOf st = map_option DAList.impl_of (mixinsApplied st)"

text \<open>The configuration object of example.ts.\<close>

definition exampleConf :: val where
  "exampleConf = Obj [(''defaultValue'', Str ''Fave nr is: '')]"

text \<open>
  The object of class \<^verbatim>\<open>Combinator\<close> on which class \<open>c1\<close> has composed \<^verbatim>\<open>MixinNumber\<close>
  and then class \<open>c2\<close> has composed \<^verbatim>\<open>MixinString\<close> with the configuration of
  example.ts (\<open>exampleHost_reached\<close> below: it is what the two \<^verbatim>\<open>mixinInits\<close> calls
  produce).
\<close>

definition exampleHost :: "cid \<Rightarrow> cid \<Rightarrow> state" where
  "exampleHost c1 c2 =
     \<lparr>cls = Combinator, constructor = Combinator,
      own = map_of
        [(''mixinDestroys'', Data (Fn Mixin ''mixinDestroys'')),
         (''MixinNumber'', Data (Fn MixinNumber ''MixinNumber'')),
         (''MixinNumberDestroy'', Data (Fn MixinNumber ''MixinNumberDestroy'')),
         (''getNumber'', Data (Fn MixinNumber ''getNumber'')),
         (''myNumber'', Data (Num 1)),
         (''MixinString'', Data (Fn MixinString ''MixinString'')),
         (''MixinStringDestroy'', Data (Fn MixinString ''MixinStringDestroy'')),
         (''getString'', Data (Fn MixinString ''getString'')),
         (''joinWithNumber'', Data (Fn MixinString ''joinWithNumber'')),
         (''myString'', Data (Str ''Fave nr is: ''))],
      mixinsApplied = Some
        (DAList.update MixinString
           \<lparr>classApplyingMixin = c2, destroyMethod = Fn MixinString ''MixinStringDestroy''\<rparr>
        (DAList.update MixinNumber
           \<lparr>classApplyingMixin = c1, destroyMethod = Fn MixinNumber ''MixinNumberDestroy''\<rparr>
         DAList.empty)),
      mixinsDestroyed = CUndefined, multiMixin = (\<lambda>m. False), console = []\<rparr>"

section \<open>The error monad and the loops\<close>

lemma bindE_simps [simp]: "bindE (Inl e) f = Inl e" "bindE (Inr x) f = f x"
  by (simp_all add: bindE_def)

lemma bindE_Inr_iff: "bindE r f = Inr y \<longleftrightarrow> (\<exists>x. r = Inr x \<and> f x = Inr y)"
  by (cases r) simp_all

lemma bindE_return [simp]: "bindE r Inr = r"
  by (cases r) simp_all

lemma forEach_Nil_fun [simp]: "forEach f [] = Inr"
  by (rule ext) simp

lemma forEach_append: "forEach f (xs @ ys) s = bindE (forEach f xs s) (forEach f ys)"
proof (induction xs arbitrary: s)
  case Nil
  show ?case by simp
next
  case (Cons x xs)
  show ?case
  proof (cases "f x s")
    case (Inl e)
    then show ?thesis by simp
  next
    case (Inr s1)
    then show ?thesis using Cons.IH [of s1] by simp
  qed
qed

lemma fold_defineProperty:
  "fold (\<lambda>(name, d) s. defineProperty s name d) xs st = st\<lparr>own := own st ++ map_of (rev xs)\<rparr>"
proof (induction xs arbitrary: st)
  case Nil
  show ?case by simp
next
  case (Cons x xs)
  obtain n d where x: "x = (n, d)" by (cases x)
  have "(own st)(n \<mapsto> d) ++ map_of (rev xs) = own st ++ map_of (rev xs @ [(n, d)])"
    by (rule ext) (simp add: map_add_def split: option.splits)
  then show ?case
    unfolding x by (simp add: Cons.IH) (simp add: defineProperty_def)
qed

lemma protoDesc_eq: "protoDesc ct m = map_of (rev (members (decl ct m)))"
  by (rule ext) (simp add: protoDesc_def)

lemma applyMixin_eq: "applyMixin ct m st = st\<lparr>own := own st ++ protoDesc ct m\<rparr>"
  by (simp add: applyMixin_def Let_def fold_defineProperty protoDesc_eq)

lemma applyMixin_fields [simp]:
  "cls (applyMixin ct m st) = cls st"
  "constructor (applyMixin ct m st) = constructor st"
  "mixinsApplied (applyMixin ct m st) = mixinsApplied st"
  "mixinsDestroyed (applyMixin ct m st) = mixinsDestroyed st"
  "multiMixin (applyMixin ct m st) = multiMixin st"
  "console (applyMixin ct m st) = console st"
  by (simp_all add: applyMixin_eq)

lemma applyMixin_own:
  "own (applyMixin ct m st) n = (case protoDesc ct m n of Some d \<Rightarrow> Some d | None \<Rightarrow> own st n)"
  by (simp add: applyMixin_eq map_add_def)

lemma hasMixin_applyMixin [simp]: "hasMixin (applyMixin ct m st) u = hasMixin st u"
  by (simp add: hasMixin_def)

lemma repeatInit_applyMixin [simp]: "repeatInit (applyMixin ct m st) r = repeatInit st r"
  by (cases r) simp_all

lemma bindThis_Inr: "bindThis f = Inr g \<Longrightarrow> g = f \<and> bindThis f = Inr f"
  by (auto simp: bindThis_def split: val.splits)

lemma mixinInit_new:
  assumes "\<not> hasMixin st (mixinOf r)"
    and "mixinInit ct bd c r (st, evs) = Inr (st', evs')"
  shows "\<exists>v st2 reg f.
      callMethod ct bd (cname (decl ct (mixinOf r))) (confOf r) (applyMixin ct (mixinOf r) st)
        = Inr (v, st2)
      \<and> mixinsApplied st2 = Some reg
      \<and> getProp ct (cname (decl ct (mixinOf r)) @ ''Destroy'') st2 = Inr f
      \<and> bindThis f = Inr f
      \<and> st' = st2\<lparr>mixinsApplied := Some (DAList.update (mixinOf r)
                 \<lparr>classApplyingMixin = c, destroyMethod = f\<rparr> reg)\<rparr>
      \<and> evs' = evs @ [Init (mixinOf r) (confOf r)]"
proof -
  let ?n = "cname (decl ct (mixinOf r))"
  from assms obtain st2 evs2 where
    call: "bindE (callMethod ct bd ?n (confOf r) (applyMixin ct (mixinOf r) st))
             (\<lambda>(v, s). Inr (s, evs @ [Init (mixinOf r) (confOf r)])) = Inr (st2, evs2)"
    and rest: "(case mixinsApplied st2 of
                  None \<Rightarrow> Inl TypeError
                | Some reg \<Rightarrow>
                    bindE (getProp ct (?n @ ''Destroy'') st2) (\<lambda>f.
                    bindE (bindThis f) (\<lambda>bound.
                      Inr (st2\<lparr>mixinsApplied := Some (DAList.update (mixinOf r)
                             \<lparr>classApplyingMixin = c, destroyMethod = bound\<rparr> reg)\<rparr>,
                           evs2)))) = Inr (st', evs')"
    by (auto simp: mixinInit_def Let_def bindE_Inr_iff)
  from call obtain v where v: "callMethod ct bd ?n (confOf r) (applyMixin ct (mixinOf r) st) = Inr (v, st2)"
    and evs2: "evs2 = evs @ [Init (mixinOf r) (confOf r)]"
    by (auto simp: bindE_Inr_iff)
  from rest obtain reg where reg: "mixinsApplied st2 = Some reg"
    by (cases "mixinsApplied st2") auto
  with rest obtain f bound where f: "getProp ct (?n @ ''Destroy'') st2 = Inr f"
    and bound: "bindThis f = Inr bound"
    and st': "st' = st2\<lparr>mixinsApplied := Some (DAList.update (mixinOf r)
                             \<lparr>classApplyingMixin = c, destroyMethod = bound\<rparr> reg)\<rparr>"
    and evs': "evs' = evs2"
    by (auto simp: bindE_Inr_iff)
  from bound have "bound = f" "bindThis f = Inr f"
    using bindThis_Inr by blast+
  with v reg f st' evs' evs2 show ?thesis
    by blast
qed

lemma mixinInit_old:
  assumes "hasMixin st (mixinOf r)"
  shows "mixinInit ct bd c r (st, evs) =
     (if repeatInit st r
      then bindE (callMethod ct bd (cname (decl ct (mixinOf r))) (confOf r) st)
             (\<lambda>(v, st2). Inr (st2, evs @ [Init (mixinOf r) (confOf r)]))
      else Inr (st, evs))"
proof (cases "repeatInit st r")
  case False
  with assms show ?thesis by (simp add: mixinInit_def Let_def)
next
  case True
  show ?thesis
  proof (cases "callMethod ct bd (cname (decl ct (mixinOf r))) (confOf r) st")
    case (Inl e)
    with True assms show ?thesis by (simp add: mixinInit_def Let_def)
  next
    case (Inr p)
    with True assms show ?thesis by (cases p) (simp add: mixinInit_def Let_def)
  qed
qed

lemma mixinInits_eq: "mixinInits ct bd c rs st = forEach (mixinInit ct bd c) rs (ensureRegistry ct st, [])"
  by (simp add: mixinInits_def ensureRegistry_def Let_def)

lemma hasMixin_ensureRegistry [simp]: "hasMixin (ensureRegistry ct st) m = hasMixin st m"
  by (simp add: ensureRegistry_def hasMixin_def)

lemma mixinDestroy_Inr:
  assumes "mixinDestroy bd x (s, evs) = Inr (s', evs')"
  shows "\<exists>v t. callVal bd (destroyMethod (snd x)) Undefined s = Inr (v, t)
           \<and> s' = t\<lparr>mixinsDestroyed := incr (mixinsDestroyed t)\<rparr>
           \<and> evs' = evs @ [Destroy (fst x)]"
  using assms by (auto simp: mixinDestroy_def bindE_Inr_iff)

lemma forEach_mixinDestroy_events:
  "forEach (mixinDestroy bd) xs (s, evs) = Inr (s', evs') \<Longrightarrow> evs' = evs @ map (Destroy \<circ> fst) xs"
proof (induction xs arbitrary: s evs)
  case Nil
  then show ?case by simp
next
  case (Cons x xs)
  from Cons.prems obtain s1 evs1 where
    1: "mixinDestroy bd x (s, evs) = Inr (s1, evs1)"
    and 2: "forEach (mixinDestroy bd) xs (s1, evs1) = Inr (s', evs')"
    by (auto simp: bindE_Inr_iff)
  from mixinDestroy_Inr [OF 1] have "evs1 = evs @ [Destroy (fst x)]" by blast
  with Cons.IH [OF 2] show ?case by simp
qed

lemma forEach_mixinDestroy_preserves:
  assumes step: "\<forall>x \<in> set xs. \<forall>s v t. callVal bd (destroyMethod (snd x)) Undefined s = Inr (v, t)
                   \<longrightarrow> P s \<longrightarrow> P t"
    and upd: "\<And>s c. P s \<Longrightarrow> P (s\<lparr>mixinsDestroyed := c\<rparr>)"
    and run: "forEach (mixinDestroy bd) xs (s, evs) = Inr (s', evs')"
    and start: "P s"
  shows "P s'"
  using step run start
proof (induction xs arbitrary: s evs)
  case Nil
  then show ?case by simp
next
  case (Cons x xs)
  from Cons.prems(2) obtain s1 evs1 where
    1: "mixinDestroy bd x (s, evs) = Inr (s1, evs1)"
    and 2: "forEach (mixinDestroy bd) xs (s1, evs1) = Inr (s', evs')"
    by (auto simp: bindE_Inr_iff)
  from mixinDestroy_Inr [OF 1] obtain v t where
    t: "callVal bd (destroyMethod (snd x)) Undefined s = Inr (v, t)"
    and s1: "s1 = t\<lparr>mixinsDestroyed := incr (mixinsDestroyed t)\<rparr>"
    by blast
  from Cons.prems(1) t Cons.prems(3) have "P t" by simp
  then have "P s1" unfolding s1 by (rule upd)
  moreover from Cons.prems(1) have "\<forall>x \<in> set xs. \<forall>s v t.
      callVal bd (destroyMethod (snd x)) Undefined s = Inr (v, t) \<longrightarrow> P s \<longrightarrow> P t" by simp
  ultimately show ?case using Cons.IH 2 by blast
qed

lemma incr_funpow_CNum: "(incr ^^ k) (CNum n) = CNum (n + k)"
  by (induction k) simp_all

lemma forEach_mixinDestroy_private:
  assumes "\<forall>x \<in> set xs. keepsPrivate bd (destroyMethod (snd x))"
    and "forEach (mixinDestroy bd) xs (s, evs) = Inr (s', evs')"
  shows "mixinsApplied s' = mixinsApplied s
       \<and> mixinsDestroyed s' = (incr ^^ length xs) (mixinsDestroyed s)"
  using assms
proof (induction xs arbitrary: s evs)
  case Nil
  then show ?case by simp
next
  case (Cons x xs)
  from Cons.prems(2) obtain s1 evs1 where
    1: "mixinDestroy bd x (s, evs) = Inr (s1, evs1)"
    and 2: "forEach (mixinDestroy bd) xs (s1, evs1) = Inr (s', evs')"
    by (auto simp: bindE_Inr_iff)
  from mixinDestroy_Inr [OF 1] obtain v t where
    t: "callVal bd (destroyMethod (snd x)) Undefined s = Inr (v, t)"
    and s1: "s1 = t\<lparr>mixinsDestroyed := incr (mixinsDestroyed t)\<rparr>"
    by blast
  from Cons.prems(1) have "keepsPrivate bd (destroyMethod (snd x))" by simp
  with t have "mixinsApplied t = mixinsApplied s" "mixinsDestroyed t = mixinsDestroyed s"
    unfolding keepsPrivate_def by blast+
  with s1 have "mixinsApplied s1 = mixinsApplied s"
    "mixinsDestroyed s1 = incr (mixinsDestroyed s)" by simp_all
  moreover from Cons.prems(1) have "\<forall>x \<in> set xs. keepsPrivate bd (destroyMethod (snd x))" by simp
  from Cons.IH [OF this 2] have "mixinsApplied s' = mixinsApplied s1"
    "mixinsDestroyed s' = (incr ^^ length xs) (mixinsDestroyed s1)" by simp_all
  ultimately show ?case by (simp add: funpow_swap1)
qed

lemma map_fst_selected: "map fst (selected c reg) = rev (appliedBy c reg)"
  by (simp add: selected_def appliedBy_def rev_map)

lemma mixinDestroys_None: "mixinsApplied st = None \<Longrightarrow> mixinDestroys bd c st = Inr (st, [])"
  by (simp add: mixinDestroys_def)

lemma mixinDestroys_Some:
  assumes "mixinsApplied st = Some reg" and "mixinDestroys bd c st = Inr (st', evs)"
  shows "\<exists>st2 reg2. forEach (mixinDestroy bd) (selected c reg) (startCounter st, []) = Inr (st2, evs)
      \<and> mixinsApplied st2 = Some reg2
      \<and> st' = (if CNum (length (DAList.impl_of reg2)) = mixinsDestroyed st2
                then st2\<lparr>mixinsApplied := None, mixinsDestroyed := CUndefined\<rparr> else st2)"
proof -
  from assms obtain st2 evs2 where
    loop: "forEach (mixinDestroy bd) (selected c reg) (startCounter st, []) = Inr (st2, evs2)"
    and rest: "(case mixinsApplied st2 of
                 None \<Rightarrow> Inl TypeError
               | Some reg2 \<Rightarrow>
                   if CNum (length (DAList.impl_of reg2)) = mixinsDestroyed st2
                   then Inr (st2\<lparr>mixinsApplied := None, mixinsDestroyed := CUndefined\<rparr>, evs2)
                   else Inr (st2, evs2)) = Inr (st', evs)"
    by (auto simp: mixinDestroys_def Let_def bindE_Inr_iff selected_def startCounter_def)
  from rest obtain reg2 where reg2: "mixinsApplied st2 = Some reg2"
    by (cases "mixinsApplied st2") auto
  with rest have "evs2 = evs"
    and "st' = (if CNum (length (DAList.impl_of reg2)) = mixinsDestroyed st2
                then st2\<lparr>mixinsApplied := None, mixinsDestroyed := CUndefined\<rparr> else st2)"
    by (auto split: if_splits)
  with loop reg2 show ?thesis by blast
qed

lemma mixinDestroys_events:
  assumes "mixinsApplied st = Some reg" and "mixinDestroys bd c st = Inr (st', evs)"
  shows "evs = map Destroy (rev (appliedBy c reg))"
proof -
  from mixinDestroys_Some [OF assms] obtain st2 where
    "forEach (mixinDestroy bd) (selected c reg) (startCounter st, []) = Inr (st2, evs)"
    by blast
  from forEach_mixinDestroy_events [OF this] show ?thesis
    by (simp add: map_fst_selected [symmetric])
qed

lemma mixinDestroys_private:
  assumes reg: "mixinsApplied st = Some reg"
    and keeps: "\<forall>x \<in> set (DAList.impl_of reg). classApplyingMixin (snd x) = c
                  \<longrightarrow> keepsPrivate bd (destroyMethod (snd x))"
    and nan: "mixinsDestroyed st \<noteq> CNaN"
    and run: "mixinDestroys bd c st = Inr (st', evs)"
  shows "if counted (mixinsDestroyed st) + length (appliedBy c reg) = length (DAList.impl_of reg)
         then mixinsApplied st' = None \<and> mixinsDestroyed st' = CUndefined
         else mixinsApplied st' = Some reg
            \<and> mixinsDestroyed st' = CNum (counted (mixinsDestroyed st) + length (appliedBy c reg))"
proof -
  from mixinDestroys_Some [OF reg run] obtain st2 reg2 where
    loop: "forEach (mixinDestroy bd) (selected c reg) (startCounter st, []) = Inr (st2, evs)"
    and reg2: "mixinsApplied st2 = Some reg2"
    and st': "st' = (if CNum (length (DAList.impl_of reg2)) = mixinsDestroyed st2
                then st2\<lparr>mixinsApplied := None, mixinsDestroyed := CUndefined\<rparr> else st2)"
    by blast
  from keeps have "\<forall>x \<in> set (selected c reg). keepsPrivate bd (destroyMethod (snd x))"
    by (simp add: selected_def)
  from forEach_mixinDestroy_private [OF this loop]
  have a: "mixinsApplied st2 = mixinsApplied (startCounter st)"
    and b: "mixinsDestroyed st2 = (incr ^^ length (selected c reg)) (mixinsDestroyed (startCounter st))"
    by simp_all
  from nan have "mixinsDestroyed (startCounter st) = CNum (counted (mixinsDestroyed st))"
    by (cases "mixinsDestroyed st") (simp_all add: startCounter_def counted_def)
  with b have c: "mixinsDestroyed st2 = CNum (counted (mixinsDestroyed st) + length (appliedBy c reg))"
    by (simp add: incr_funpow_CNum selected_def appliedBy_def)
  from a reg reg2 have "reg2 = reg" by (simp add: startCounter_def split: if_splits)
  with st' c reg2 show ?thesis by auto
qed

lemma callAll_Cons [simp]:
  "callAll bd (f # fs) st =
     bindE (callVal bd f Undefined st) (\<lambda>(r, st1).
       callAll bd fs (st1\<lparr>mixinsDestroyed := incr (mixinsDestroyed st1)\<rparr>))"
  by (cases f) (simp_all add: callVal_def)

declare callAll.simps(2) [simp del]

lemma callAll_append: "callAll bd (fs @ gs) s = bindE (callAll bd fs s) (callAll bd gs)"
proof (induction fs arbitrary: s)
  case Nil
  show ?case by simp
next
  case (Cons f fs)
  show ?case
  proof (cases "callVal bd f Undefined s")
    case (Inl e)
    then show ?thesis by simp
  next
    case (Inr p)
    then show ?thesis by (cases p) (simp add: Cons.IH)
  qed
qed

lemma callAll_Cons_Inr:
  "callAll bd (f # fs) s = Inr s' \<longleftrightarrow>
     (\<exists>v t. callVal bd f Undefined s = Inr (v, t)
         \<and> callAll bd fs (t\<lparr>mixinsDestroyed := incr (mixinsDestroyed t)\<rparr>) = Inr s')"
  by (auto simp: bindE_Inr_iff)

lemma callVal_Inr:
  "callVal bd f a s = Inr p \<Longrightarrow> \<exists>c n. f = Fn c n \<and> bd c n a s = Inr p"
  by (cases f) (simp_all add: callVal_def)

lemma mixinDestroy_eq:
  "mixinDestroy bd x (s, evs) =
     bindE (callVal bd (destroyMethod (snd x)) Undefined s) (\<lambda>(r, st1).
       Inr (st1\<lparr>mixinsDestroyed := incr (mixinsDestroyed st1)\<rparr>, evs @ [Destroy (fst x)]))"
  by (simp add: mixinDestroy_def)

lemma forEach_mixinDestroy_callAll:
  "forEach (mixinDestroy bd) xs (s, evs) =
     bindE (callAll bd (map (\<lambda>value. destroyMethod (snd value)) xs) s)
       (\<lambda>s'. Inr (s', evs @ map (Destroy \<circ> fst) xs))"
proof (induction xs arbitrary: s evs)
  case Nil
  show ?case by simp
next
  case (Cons x xs)
  show ?case
  proof (cases "callVal bd (destroyMethod (snd x)) Undefined s")
    case (Inl e)
    then show ?thesis by (simp add: mixinDestroy_eq)
  next
    case (Inr p)
    then show ?thesis by (cases p) (simp add: mixinDestroy_eq Cons.IH)
  qed
qed

lemma finalizersIn_selected:
  "finalizersIn c (DAList.impl_of reg) = map (\<lambda>value. destroyMethod (snd value)) (selected c reg)"
  by (simp add: finalizersIn_def selected_def)

lemma length_finalizersIn: "length (finalizersIn c (DAList.impl_of reg)) = length (appliedBy c reg)"
  by (simp add: finalizersIn_def appliedBy_def)

lemma mixinDestroys_callAll:
  assumes "mixinsApplied st = Some reg"
  shows "mixinDestroys bd c st =
     bindE (callAll bd (finalizersIn c (DAList.impl_of reg)) (startCounter st))
       (\<lambda>st2. if mixinsApplied st2 = None then Inl TypeError
              else Inr (retired st2, map Destroy (rev (appliedBy c reg))))"
proof (cases "callAll bd (finalizersIn c (DAList.impl_of reg)) (startCounter st)")
  case (Inl e)
  with assms show ?thesis
    by (simp add: mixinDestroys_def Let_def forEach_mixinDestroy_callAll finalizersIn_def
          startCounter_def)
next
  case (Inr st2)
  with assms show ?thesis
    by (cases "mixinsApplied st2")
       (simp_all add: mixinDestroys_def Let_def forEach_mixinDestroy_callAll finalizersIn_def
          startCounter_def retired_def appliedBy_def rev_map)
qed

lemma mixinDestroys_calls:
  assumes "mixinsApplied st = Some reg" and "mixinDestroys bd c st = Inr (st', evs)"
  shows "\<exists>st2. callAll bd (finalizersIn c (DAList.impl_of reg)) (startCounter st) = Inr st2
           \<and> mixinsApplied st2 \<noteq> None \<and> st' = retired st2
           \<and> evs = map Destroy (rev (appliedBy c reg))"
  using assms(2) unfolding mixinDestroys_callAll [OF assms(1)]
  by (auto simp: bindE_Inr_iff split: if_splits)

lemma callAll_private:
  assumes "\<forall>f \<in> set fs. keepsPrivate bd f" and "callAll bd fs s = Inr s'"
  shows "mixinsApplied s' = mixinsApplied s
       \<and> mixinsDestroyed s' = (incr ^^ length fs) (mixinsDestroyed s)"
  using assms
proof (induction fs arbitrary: s)
  case Nil
  then show ?case by simp
next
  case (Cons f fs)
  from Cons.prems(2) obtain v t where
    t: "callVal bd f Undefined s = Inr (v, t)"
    and 2: "callAll bd fs (t\<lparr>mixinsDestroyed := incr (mixinsDestroyed t)\<rparr>) = Inr s'"
    unfolding callAll_Cons_Inr by blast
  from Cons.prems(1) have "keepsPrivate bd f" by simp
  with t have "mixinsApplied t = mixinsApplied s" "mixinsDestroyed t = mixinsDestroyed s"
    unfolding keepsPrivate_def by blast+
  moreover from Cons.prems(1) have "\<forall>f \<in> set fs. keepsPrivate bd f" by simp
  from Cons.IH [OF this 2]
  have "mixinsApplied s' = mixinsApplied (t\<lparr>mixinsDestroyed := incr (mixinsDestroyed t)\<rparr>)"
    "mixinsDestroyed s' = (incr ^^ length fs)
        (mixinsDestroyed (t\<lparr>mixinsDestroyed := incr (mixinsDestroyed t)\<rparr>))" by simp_all
  ultimately show ?case by (simp add: funpow_swap1)
qed

lemma startCounter_fields [simp]:
  "cls (startCounter st) = cls st"
  "constructor (startCounter st) = constructor st"
  "own (startCounter st) = own st"
  "mixinsApplied (startCounter st) = mixinsApplied st"
  "multiMixin (startCounter st) = multiMixin st"
  "console (startCounter st) = console st"
  by (simp_all add: startCounter_def)

lemma startCounter_CNum: "mixinsDestroyed st = CNum n \<Longrightarrow> startCounter st = st"
  by (simp add: startCounter_def)

lemma incr_funpow_CNaN: "(incr ^^ k) CNaN = CNaN"
  by (induction k) simp_all

lemma retired_fields [simp]:
  "cls (retired st) = cls st"
  "constructor (retired st) = constructor st"
  "own (retired st) = own st"
  "multiMixin (retired st) = multiMixin st"
  "console (retired st) = console st"
  by (simp_all add: retired_def split: option.splits)

section \<open>The demo\<close>

lemmas framework_defs =
  bindE_def callMethod_def callVal_def getProp_def getDesc_def setProp_def deleteProp_def
  bindThis_def hasMixin_def defineProperty_def applyMixin_def mixinInit_def mixinInits_def
  mixinDestroy_def mixinDestroys_def instanceOf_def notApplicable_def protoDesc_def
  MixinDecl_def ObjectDecl_def Let_def DAList.lookup.rep_eq DAList.update.rep_eq DAList.empty.rep_eq

lemmas example_defs =
  exampleClasses_def newObject_def consoleLog_def newCombinator_def truthy_def jsOr_def
  getField_def showInt_def showNat.simps exampleConf_def

lemma exampleHost_reached:
  "finalOf (runCalls exampleClasses (exampleBodies (Suc k))
      [Inits c1 [Bare MixinNumber], Inits c2 [With MixinString exampleConf False]]
      (newObject Combinator)) = Some (exampleHost c1 c2)"
  apply (simp add: finalOf_def exampleHost_def framework_defs example_defs)
  apply (rule ext)
  apply simp
  done

lemma exampleHost_events:
  "eventsOf (runCalls exampleClasses (exampleBodies (Suc k))
      [Inits c1 [Bare MixinNumber], Inits c2 [With MixinString exampleConf False]]
      (newObject Combinator)) = Some [[Init MixinNumber Undefined], [Init MixinString exampleConf]]"
  by (simp add: eventsOf_def framework_defs example_defs)

lemma getProp_Object_prototype:
  "getProp exampleClasses ''toString'' (newObject Combinator) = Inr (Fn Object ''toString'')"
  "getProp exampleClasses ''mixinDestroys'' (newObject Combinator) = Inr Undefined"
  "getProp exampleClasses ''mixinDestroys'' (exampleHost c1 c2) = Inr (Fn Mixin ''mixinDestroys'')"
  by (simp_all add: exampleHost_def framework_defs example_defs)

lemma callMethod_private:
  assumes "\<forall>f. keepsPrivate bd f" and "callMethod ct bd n a s = Inr (v, s')"
  shows "mixinsApplied s' = mixinsApplied s \<and> mixinsDestroyed s' = mixinsDestroyed s"
proof -
  from assms(2) obtain f where "callVal bd f a s = Inr (v, s')"
    by (auto simp: callMethod_def bindE_Inr_iff)
  with assms(1) show ?thesis unfolding keepsPrivate_def by blast
qed

lemma setProp_private:
  "setProp ct n v s = Inr s' \<Longrightarrow> mixinsApplied s' = mixinsApplied s \<and> mixinsDestroyed s' = mixinsDestroyed s"
  by (auto simp: setProp_def split: option.splits desc.splits)

lemma notApplicable_private:
  "mixinsApplied (fst (notApplicable ct s u t)) = mixinsApplied s
   \<and> mixinsDestroyed (fst (notApplicable ct s u t)) = mixinsDestroyed s"
  by (simp add: notApplicable_def)

lemma exampleBodies_keepsPrivate: "keepsPrivate (exampleBodies k) f"
proof (induction k arbitrary: f)
  case 0
  show ?case by (simp add: keepsPrivate_def callVal_def split: val.splits)
next
  case (Suc k)
  then have IH: "\<forall>f. keepsPrivate (exampleBodies k) f" by simp
  show ?case
    unfolding keepsPrivate_def
  proof (intro allI impI)
    fix a s v s'
    assume call: "callVal (exampleBodies (Suc k)) f a s = Inr (v, s')"
    then obtain c n where f: "f = Fn c n"
      by (cases f) (simp_all add: callVal_def)
    with call have body: "exampleBodies (Suc k) c n a s = Inr (v, s')"
      by (simp add: callVal_def)
    show "mixinsApplied s' = mixinsApplied s \<and> mixinsDestroyed s' = mixinsDestroyed s"
      using body callMethod_private [OF IH] notApplicable_private [of exampleClasses s MixinString MixinNumber]
      by (auto simp: bindE_Inr_iff deleteProp_def split: if_splits prod.splits bool.splits
            dest!: setProp_private)
  qed
qed

lemma destroy_exampleHost:
  "eventsOf (destroy (Suc k) (exampleHost Combinator Combinator))
     = Some [Destroy MixinString, Destroy MixinNumber]"
  "map_option mixinsApplied (finalOf (destroy (Suc k) (exampleHost Combinator Combinator)))
     = Some None"
  by (simp_all add: destroy_def exampleHost_def eventsOf_def finalOf_def framework_defs
        example_defs)

text \<open>
  Claim C9. The script of example.ts: constructing a \<^verbatim>\<open>Combinator\<close> composes
  \<^verbatim>\<open>MixinNumber\<close> without configuration and then \<^verbatim>\<open>MixinString\<close> with
  \<^verbatim>\<open>{defaultValue: "Fave nr is: "}\<close>, whose check for \<^verbatim>\<open>MixinNumber\<close> passes (nothing is
  written to \<^verbatim>\<open>console.error\<close>); \<^verbatim>\<open>getString()\<close> then returns \<^verbatim>\<open>"Fave nr is: "\<close>, and
  after \<^verbatim>\<open>joinWithNumber()\<close> it returns \<^verbatim>\<open>"Fave nr is: 1"\<close>. The construction needs one
  level of method calls and the script two; any fuel from two on gives the result.
\<close>

theorem demo_prints:
  "eventsOf (newCombinator (Suc k))
     = Some [Init MixinNumber Undefined,
             Init MixinString (Obj [(''defaultValue'', Str ''Fave nr is: '')])]
   \<and> demo (Suc (Suc k))
     = Inr (Str ''Fave nr is: '', Str ''Fave nr is: 1'',
            [Log ''BaseClass is here!'', Log ''Fave nr is: '', Log ''Fave nr is: 1''])"
proof -
  have "eventsOf (newCombinator (Suc k))
     = Some [Init MixinNumber Undefined,
             Init MixinString (Obj [(''defaultValue'', Str ''Fave nr is: '')])]"
    by (simp add: eventsOf_def framework_defs example_defs)
  moreover have "demo (Suc (Suc k))
     = Inr (Str ''Fave nr is: '', Str ''Fave nr is: 1'',
            [Log ''BaseClass is here!'', Log ''Fave nr is: '', Log ''Fave nr is: 1''])"
    by (simp add: demo_def consoleLogVal_def framework_defs example_defs)
  ultimately show ?thesis by simp
qed

section \<open>Composition\<close>







text \<open>
  Claim C7. \<^verbatim>\<open>notApplicable\<close> returns false exactly when the host is an instance of
  the required class or has it as a mixin, and then writes nothing. Otherwise it writes
  one line to \<^verbatim>\<open>console.error\<close>, made of the name of the host's constructor, of the
  required class and of the mixin, changes nothing else, and returns true. It has no
  step that can throw on a host whose constructor is a class: the function is total and
  returns to its caller in both cases.
\<close>

theorem notApplicable_signal:
  "(snd (notApplicable ct H U T) = False \<longleftrightarrow> instanceOf ct H T \<or> hasMixin H T)
   \<and> (instanceOf ct H T \<or> hasMixin H T \<longrightarrow> notApplicable ct H U T = (H, False))
   \<and> (\<not> (instanceOf ct H T \<or> hasMixin H T) \<longrightarrow>
        notApplicable ct H U T =
          (H\<lparr>console := console H @
               [Error (cname (decl ct (constructor H)) @ '' is not an instance of ''
                  @ cname (decl ct T) @ '' and can not use mixin '' @ cname (decl ct U)
                  @ ''. Correct this fault as it can lead to unpredictable behaviour.'')]\<rparr>,
           True))"
  by (simp add: notApplicable_def)

theorem notApplicable_signal_witness:
  "\<not> (instanceOf exampleClasses (newObject Combinator) MixinNumber
        \<or> hasMixin (newObject Combinator) MixinNumber)
   \<and> notApplicable exampleClasses (newObject Combinator) MixinString MixinNumber =
       ((newObject Combinator)\<lparr>console :=
           [Error ''Combinator is not an instance of MixinNumber and can not use mixin MixinString. Correct this fault as it can lead to unpredictable behaviour.'']\<rparr>,
        True)
   \<and> instanceOf exampleClasses (newObject Combinator) BaseClass
   \<and> notApplicable exampleClasses (newObject Combinator) MixinString BaseClass
       = (newObject Combinator, False)
   \<and> hasMixin (exampleHost Combinator Combinator) MixinNumber
   \<and> notApplicable exampleClasses (exampleHost Combinator Combinator) MixinString MixinNumber
       = (exampleHost Combinator Combinator, False)"
proof -
  have 1: "\<not> (instanceOf exampleClasses (newObject Combinator) MixinNumber
        \<or> hasMixin (newObject Combinator) MixinNumber)"
    by (simp add: instanceOf_def hasMixin_def newObject_def exampleClasses_def)
  have 2: "instanceOf exampleClasses (newObject Combinator) BaseClass"
    by (simp add: instanceOf_def newObject_def exampleClasses_def)
  have 3: "hasMixin (exampleHost Combinator Combinator) MixinNumber"
    by (simp add: hasMixin_def exampleHost_def DAList.lookup_update)
  from 1 notApplicable_signal [of exampleClasses "newObject Combinator" MixinString MixinNumber]
  have "notApplicable exampleClasses (newObject Combinator) MixinString MixinNumber =
       ((newObject Combinator)\<lparr>console := console (newObject Combinator) @
           [Error (cname (decl exampleClasses (constructor (newObject Combinator)))
              @ '' is not an instance of '' @ cname (decl exampleClasses MixinNumber)
              @ '' and can not use mixin '' @ cname (decl exampleClasses MixinString)
              @ ''. Correct this fault as it can lead to unpredictable behaviour.'')]\<rparr>,
        True)"
    by blast
  then have 4: "notApplicable exampleClasses (newObject Combinator) MixinString MixinNumber =
       ((newObject Combinator)\<lparr>console :=
           [Error ''Combinator is not an instance of MixinNumber and can not use mixin MixinString. Correct this fault as it can lead to unpredictable behaviour.'']\<rparr>,
        True)"
    by (simp add: newObject_def exampleClasses_def)
  from 2 notApplicable_signal [of exampleClasses "newObject Combinator" MixinString BaseClass]
  have 5: "notApplicable exampleClasses (newObject Combinator) MixinString BaseClass
       = (newObject Combinator, False)"
    by blast
  from 3 notApplicable_signal [of exampleClasses "exampleHost Combinator Combinator" MixinString MixinNumber]
  have 6: "notApplicable exampleClasses (exampleHost Combinator Combinator) MixinString MixinNumber
       = (exampleHost Combinator Combinator, False)"
    by blast
  from 1 2 3 4 5 6 show ?thesis by blast
qed

text \<open>
  Claim C8. \<^verbatim>\<open>applyMixin\<close> leaves \<^verbatim>\<open>host.constructor\<close> (and the class of the host) as
  they were, although the loop copies the \<^verbatim>\<open>constructor\<close> of the mixin's prototype too;
  every other own property of the mixin's prototype is on the host afterwards, with the
  prototype's descriptor, and the properties of other names are untouched.
\<close>

theorem applyMixin_installs:
  "constructor (applyMixin ct U H) = constructor H
   \<and> cls (applyMixin ct U H) = cls H
   \<and> (\<forall>n d. protoDesc ct U n = Some d \<longrightarrow> own (applyMixin ct U H) n = Some d)
   \<and> (\<forall>n. protoDesc ct U n = None \<longrightarrow> own (applyMixin ct U H) n = own H n)"
  by (simp add: applyMixin_own)

theorem applyMixin_installs_witness:
  "protoDesc exampleClasses MixinString ''getString'' = Some (Data (Fn MixinString ''getString''))
   \<and> own (applyMixin exampleClasses MixinString (newObject Combinator)) ''getString''
       = Some (Data (Fn MixinString ''getString''))
   \<and> constructor (applyMixin exampleClasses MixinString (newObject Combinator)) = Combinator
   \<and> protoDesc exampleClasses MixinString ''myNumber'' = None
   \<and> own (applyMixin exampleClasses MixinString (exampleHost Combinator Combinator)) ''myNumber''
       = Some (Data (Num 1))"
proof -
  have 1: "protoDesc exampleClasses MixinString ''getString'' = Some (Data (Fn MixinString ''getString''))"
    by (simp add: protoDesc_def exampleClasses_def)
  have 2: "protoDesc exampleClasses MixinString ''myNumber'' = None"
    by (simp add: protoDesc_def exampleClasses_def)
  from 1 applyMixin_installs [of exampleClasses MixinString "newObject Combinator"]
  have 3: "own (applyMixin exampleClasses MixinString (newObject Combinator)) ''getString''
       = Some (Data (Fn MixinString ''getString''))"
    and 4: "constructor (applyMixin exampleClasses MixinString (newObject Combinator))
       = constructor (newObject Combinator)"
    by blast+
  from 2 applyMixin_installs [of exampleClasses MixinString "exampleHost Combinator Combinator"]
  have "own (applyMixin exampleClasses MixinString (exampleHost Combinator Combinator)) ''myNumber''
       = own (exampleHost Combinator Combinator) ''myNumber''"
    by blast
  then have 5: "own (applyMixin exampleClasses MixinString (exampleHost Combinator Combinator)) ''myNumber''
       = Some (Data (Num 1))"
    by (simp add: exampleHost_def)
  from 1 2 3 4 5 show ?thesis by (simp add: newObject_def)
qed

lemma one_entry_list:
  "distinct (map fst xs) \<Longrightarrow> map_of xs u \<noteq> None
     \<Longrightarrow> length (filter (\<lambda>value. fst value = u) xs) = 1"
proof (induction xs)
  case Nil
  then show ?case by simp
next
  case (Cons x xs)
  show ?case
  proof (cases "fst x = u")
    case True
    with Cons.prems(1) have "u \<notin> fst ` set xs" by auto
    then have "filter (\<lambda>value. fst value = u) xs = []"
      by (auto simp: filter_empty_conv)
    with True show ?thesis by simp
  next
    case False
    with Cons.prems have "map_of xs u \<noteq> None" by (cases x) auto
    with Cons.IH Cons.prems(1) False show ?thesis by simp
  qed
qed

lemma one_entry:
  "DAList.lookup reg u \<noteq> None
     \<Longrightarrow> length (filter (\<lambda>value. fst value = u) (DAList.impl_of reg)) = 1"
  by (rule one_entry_list) (simp_all add: DAList.lookup.rep_eq)

lemma callMethod_own:
  "n \<noteq> ''constructor'' \<Longrightarrow> own s n = Some (Data f) \<Longrightarrow> callMethod ct bd n a s = callVal bd f a s"
  by (simp add: callMethod_def getProp_def getDesc_def)

lemma callMethod_constructor: "callMethod ct bd ''constructor'' a s = Inl TypeError"
  by (simp add: callMethod_def getProp_def callVal_def)

lemma getProp_own:
  "n \<noteq> ''constructor'' \<Longrightarrow> own s n = Some (Data f) \<Longrightarrow> getProp ct n s = Inr f"
  by (simp add: getProp_def getDesc_def)

lemma ensureRegistry_Some: "mixinsApplied st \<noteq> None \<Longrightarrow> ensureRegistry ct st = st"
  by (auto simp: ensureRegistry_def)

lemma ensureRegistry_fields [simp]:
  "cls (ensureRegistry ct st) = cls st"
  "constructor (ensureRegistry ct st) = constructor st"
  "mixinsDestroyed (ensureRegistry ct st) = mixinsDestroyed st"
  "multiMixin (ensureRegistry ct st) = multiMixin st"
  "console (ensureRegistry ct st) = console st"
  "mixinsApplied (ensureRegistry ct st) \<noteq> None"
  by (simp_all add: ensureRegistry_def)

lemma repeatInit_iff:
  "mixinOf r = u \<Longrightarrow> repeatInit st r \<longleftrightarrow> multiMixin st u \<or> (\<exists>v. r = With u v True)"
  by (cases r) auto

lemma update_absent: "map_of al k = None \<Longrightarrow> AList.update k v al = al @ [(k, v)]"
  by (induction al) auto

lemma impl_of_update_absent:
  "DAList.lookup reg k = None \<Longrightarrow> DAList.impl_of (DAList.update k v reg) = DAList.impl_of reg @ [(k, v)]"
  by (simp add: DAList.update.rep_eq DAList.lookup.rep_eq update_absent)

text \<open>
  Claim C2. After a first \<^verbatim>\<open>mixinInits\<close> that attached the mixin, in which the
  initializer ran once on the host with the members installed, a second \<^verbatim>\<open>mixinInits\<close>
  for the same mixin runs the initializer again, on the host as the first call left it,
  exactly when the repeat policy is on (the static \<^verbatim>\<open>multiMixin\<close> of the mixin, or the
  flag of the argument object): the host is then what this second run returns, and with
  the policy off the host is unchanged. So the initializer has run twice or once in
  total. In both cases the members of the mixin are still on the host, the registry is
  what the first call left, and the mixin has exactly one entry in it. The initializer is
  code of the mixin: it is taken to be the function the mixin declares under its own name,
  and to leave the private fields and the mixin's member properties alone.
\<close>

theorem repeated_mixinInits:
  assumes fresh: "\<not> hasMixin H U" and r: "mixinOf r = U"
    and init: "protoDesc ct U (cname (decl ct U)) = Some (Data (Fn ci ni))"
    and kp: "keepsPrivate bd (Fn ci ni)" and km: "keepsMembers ct bd (Fn ci ni) U"
    and first: "mixinInits ct bd C [r] H = Inr (H1, evs1)"
    and second: "mixinInits ct bd C [r] H1 = Inr (H2, evs2)"
  shows "(\<exists>v1 s1 reg g.
            bd ci ni (confOf r) (applyMixin ct U (ensureRegistry ct H)) = Inr (v1, s1)
            \<and> mixinsApplied (ensureRegistry ct H) = Some reg
            \<and> H1 = s1\<lparr>mixinsApplied := Some (DAList.update U
                       \<lparr>classApplyingMixin = C, destroyMethod = g\<rparr> reg)\<rparr>)
       \<and> evs1 = [Init U (confOf r)]
       \<and> (if multiMixin H1 U \<or> (\<exists>v. r = With U v True)
          then (\<exists>v2. bd ci ni (confOf r) H1 = Inr (v2, H2)) \<and> evs2 = [Init U (confOf r)]
          else H2 = H1 \<and> evs2 = [])
       \<and> (\<forall>n d. protoDesc ct U n = Some d \<longrightarrow> own H2 n = Some d)
       \<and> mixinsApplied H2 = mixinsApplied H1
       \<and> hasMixin H2 U
       \<and> (\<exists>reg. mixinsApplied H2 = Some reg
              \<and> length (filter (\<lambda>value. fst value = U) (DAList.impl_of reg)) = 1)"
proof -
  let ?n = "cname (decl ct U)"
  let ?c = "confOf r"
  let ?f = "Fn ci ni"
  let ?s1 = "applyMixin ct U (ensureRegistry ct H)"
  from first r have "mixinInit ct bd C r (ensureRegistry ct H, []) = Inr (H1, evs1)"
    by (simp add: mixinInits_eq)
  moreover from fresh r have "\<not> hasMixin (ensureRegistry ct H) (mixinOf r)" by simp
  ultimately obtain v st2 reg g where
    call1: "callMethod ct bd ?n ?c ?s1 = Inr (v, st2)"
    and reg2: "mixinsApplied st2 = Some reg"
    and H1: "H1 = st2\<lparr>mixinsApplied := Some (DAList.update U
                 \<lparr>classApplyingMixin = C, destroyMethod = g\<rparr> reg)\<rparr>"
    and evs1: "evs1 = [Init U ?c]"
    using mixinInit_new [of "ensureRegistry ct H" r ct bd C "[]" H1 evs1] r by auto
  have n: "?n \<noteq> ''constructor''"
  proof
    assume "?n = ''constructor''"
    with call1 show False by (simp add: callMethod_constructor)
  qed
  have "own ?s1 ?n = Some (Data ?f)" by (simp add: applyMixin_own init)
  with n call1 have body1: "callVal bd ?f ?c ?s1 = Inr (v, st2)"
    by (simp add: callMethod_own)
  then have bd1: "bd ci ni ?c ?s1 = Inr (v, st2)" by (simp add: callVal_def)
  from body1 kp have "mixinsApplied st2 = mixinsApplied ?s1"
    unfolding keepsPrivate_def by blast
  with reg2 have reg0: "mixinsApplied (ensureRegistry ct H) = Some reg" by simp
  from bd1 reg0 H1 have one: "\<exists>v1 s1 reg g.
            bd ci ni ?c ?s1 = Inr (v1, s1)
            \<and> mixinsApplied (ensureRegistry ct H) = Some reg
            \<and> H1 = s1\<lparr>mixinsApplied := Some (DAList.update U
                       \<lparr>classApplyingMixin = C, destroyMethod = g\<rparr> reg)\<rparr>"
    by blast
  from body1 km have "\<forall>m. protoDesc ct U m \<noteq> None \<longrightarrow> own st2 m = own ?s1 m"
    unfolding keepsMembers_def by blast
  then have members1: "\<forall>m d. protoDesc ct U m = Some d \<longrightarrow> own H1 m = Some d"
    by (simp add: H1 applyMixin_own)
  have reg1: "mixinsApplied H1 = Some (DAList.update U
                 \<lparr>classApplyingMixin = C, destroyMethod = g\<rparr> reg)"
    by (simp add: H1)
  then have has1: "hasMixin H1 U" by (simp add: hasMixin_def)
  from reg1 have "ensureRegistry ct H1 = H1" by (simp add: ensureRegistry_Some)
  with second have second': "mixinInit ct bd C r (H1, []) = Inr (H2, evs2)"
    by (simp add: mixinInits_eq)
  from has1 r have "hasMixin H1 (mixinOf r)" by simp
  note old = mixinInit_old [OF this, of ct bd C "[]", unfolded r]
  from second' have step2:
    "(if repeatInit H1 r
      then bindE (callMethod ct bd ?n ?c H1) (\<lambda>(v, st2). Inr (st2, [] @ [Init U ?c]))
      else Inr (H1, [])) = Inr (H2, evs2)"
    unfolding old .
  note policy = repeatInit_iff [OF r, of H1]
  have rest: "(if multiMixin H1 U \<or> (\<exists>v. r = With U v True)
          then (\<exists>v2. bd ci ni ?c H1 = Inr (v2, H2)) \<and> evs2 = [Init U ?c]
          else H2 = H1 \<and> evs2 = [])
       \<and> (\<forall>m. protoDesc ct U m \<noteq> None \<longrightarrow> own H2 m = own H1 m)
       \<and> mixinsApplied H2 = mixinsApplied H1"
  proof (cases "repeatInit H1 r")
    case False
    with step2 have "H2 = H1" "evs2 = []" by simp_all
    with False policy show ?thesis by simp
  next
    case True
    with step2 obtain v' where call2: "callMethod ct bd ?n ?c H1 = Inr (v', H2)"
      and evs2: "evs2 = [Init U ?c]"
      by (auto simp: bindE_Inr_iff)
    from members1 init have "own H1 ?n = Some (Data ?f)" by blast
    with n call2 have body2: "callVal bd ?f ?c H1 = Inr (v', H2)"
      by (simp add: callMethod_own)
    then have bd2: "\<exists>v2. bd ci ni ?c H1 = Inr (v2, H2)" by (simp add: callVal_def)
    from body2 kp have "mixinsApplied H2 = mixinsApplied H1"
      unfolding keepsPrivate_def by blast
    moreover from body2 km have "\<forall>m. protoDesc ct U m \<noteq> None \<longrightarrow> own H2 m = own H1 m"
      unfolding keepsMembers_def by blast
    ultimately show ?thesis using True policy evs2 bd2 by simp
  qed
  with members1 have members2: "\<forall>m d. protoDesc ct U m = Some d \<longrightarrow> own H2 m = Some d"
    by simp
  from rest has1 have has2: "hasMixin H2 U" by (simp add: hasMixin_def)
  from rest reg1 obtain regb where regb: "mixinsApplied H2 = Some regb"
    and "DAList.lookup regb U \<noteq> None"
    by simp
  then have "length (filter (\<lambda>value. fst value = U) (DAList.impl_of regb)) = 1"
    by (simp add: one_entry)
  with regb have entry: "\<exists>reg. mixinsApplied H2 = Some reg
              \<and> length (filter (\<lambda>value. fst value = U) (DAList.impl_of reg)) = 1"
    by blast
  from rest have a: "if multiMixin H1 U \<or> (\<exists>v. r = With U v True)
          then (\<exists>v2. bd ci ni ?c H1 = Inr (v2, H2)) \<and> evs2 = [Init U ?c]
          else H2 = H1 \<and> evs2 = []"
    and b: "mixinsApplied H2 = mixinsApplied H1"
    by blast+
  show ?thesis
    apply (intro conjI)
          apply (rule one)
         apply (rule evs1)
        apply (rule a)
       apply (rule members2)
      apply (rule b)
     apply (rule has2)
    apply (rule entry)
    done
qed

lemma MixinNumber_init_keepsMembers:
  "keepsMembers exampleClasses (exampleBodies k) (Fn MixinNumber ''MixinNumber'') MixinNumber"
proof (cases k)
  case 0
  then show ?thesis by (simp add: keepsMembers_def callVal_def)
next
  case (Suc j)
  then show ?thesis
    by (auto simp: keepsMembers_def callVal_def setProp_def bindE_Inr_iff protoDesc_def
          exampleClasses_def split: option.splits desc.splits)
qed

lemma MixinNumber_twice:
  "\<exists>H1 H2. mixinInits exampleClasses (exampleBodies (Suc k)) c [With MixinNumber Undefined True]
       (newObject Combinator) = Inr (H1, [Init MixinNumber Undefined])
     \<and> mixinInits exampleClasses (exampleBodies (Suc k)) c [With MixinNumber Undefined True] H1
         = Inr (H2, [Init MixinNumber Undefined])
     \<and> own H2 ''myNumber'' = Some (Data (Num 1))"
  by (simp add: framework_defs example_defs)

lemma MixinNumber_once:
  "\<exists>H1. mixinInits exampleClasses (exampleBodies (Suc k)) c [Bare MixinNumber]
       (newObject Combinator) = Inr (H1, [Init MixinNumber Undefined])
     \<and> mixinInits exampleClasses (exampleBodies (Suc k)) c [Bare MixinNumber] H1 = Inr (H1, [])
     \<and> \<not> multiMixin H1 MixinNumber"
  by (simp add: framework_defs example_defs)

theorem repeated_mixinInits_witness:
  "\<not> hasMixin (newObject Combinator) MixinNumber
   \<and> protoDesc exampleClasses MixinNumber (cname (decl exampleClasses MixinNumber))
       = Some (Data (Fn MixinNumber ''MixinNumber''))
   \<and> keepsPrivate (exampleBodies 1) (Fn MixinNumber ''MixinNumber'')
   \<and> keepsMembers exampleClasses (exampleBodies 1) (Fn MixinNumber ''MixinNumber'') MixinNumber
   \<and> eventsOf (runCalls exampleClasses (exampleBodies 1)
        [Inits Combinator [With MixinNumber Undefined True],
         Inits Combinator [With MixinNumber Undefined True]] (newObject Combinator))
       = Some [[Init MixinNumber Undefined], [Init MixinNumber Undefined]]
   \<and> map_option (\<lambda>H2. hasMixin H2 MixinNumber
          \<and> own H2 ''getNumber'' = Some (Data (Fn MixinNumber ''getNumber''))
          \<and> own H2 ''myNumber'' = Some (Data (Num 1)))
       (finalOf (runCalls exampleClasses (exampleBodies 1)
        [Inits Combinator [With MixinNumber Undefined True],
         Inits Combinator [With MixinNumber Undefined True]] (newObject Combinator)))
       = Some True
   \<and> eventsOf (runCalls exampleClasses (exampleBodies 1)
        [Inits Combinator [Bare MixinNumber], Inits Combinator [Bare MixinNumber]]
        (newObject Combinator))
       = Some [[Init MixinNumber Undefined], []]
   \<and> finalOf (runCalls exampleClasses (exampleBodies 1)
        [Inits Combinator [Bare MixinNumber], Inits Combinator [Bare MixinNumber]]
        (newObject Combinator))
       = finalOf (runCalls exampleClasses (exampleBodies 1)
        [Inits Combinator [Bare MixinNumber]] (newObject Combinator))"
proof -
  let ?r = "With MixinNumber Undefined True"
  have fresh: "\<not> hasMixin (newObject Combinator) MixinNumber"
    by (simp add: hasMixin_def newObject_def)
  have init: "protoDesc exampleClasses MixinNumber (cname (decl exampleClasses MixinNumber))
       = Some (Data (Fn MixinNumber ''MixinNumber''))"
    by (simp add: protoDesc_def exampleClasses_def)
  have member: "protoDesc exampleClasses MixinNumber ''getNumber''
       = Some (Data (Fn MixinNumber ''getNumber''))"
    by (simp add: protoDesc_def exampleClasses_def)
  have kp: "keepsPrivate (exampleBodies 1) (Fn MixinNumber ''MixinNumber'')"
    by (rule exampleBodies_keepsPrivate)
  have km: "keepsMembers exampleClasses (exampleBodies 1) (Fn MixinNumber ''MixinNumber'') MixinNumber"
    by (rule MixinNumber_init_keepsMembers)
  from MixinNumber_twice [of 0 Combinator] obtain H1 H2 where
    first: "mixinInits exampleClasses (exampleBodies 1) Combinator [?r] (newObject Combinator)
       = Inr (H1, [Init MixinNumber Undefined])"
    and second: "mixinInits exampleClasses (exampleBodies 1) Combinator [?r] H1
       = Inr (H2, [Init MixinNumber Undefined])"
    and field: "own H2 ''myNumber'' = Some (Data (Num 1))"
    by auto
  note on = repeated_mixinInits [OF fresh _ init kp km first second]
  from on [THEN conjunct2, THEN conjunct2, THEN conjunct2, THEN conjunct1, rule_format, OF _ member]
  have m: "own H2 ''getNumber'' = Some (Data (Fn MixinNumber ''getNumber''))" by simp
  from on [THEN conjunct2, THEN conjunct2, THEN conjunct2, THEN conjunct2, THEN conjunct2,
           THEN conjunct1]
  have h: "hasMixin H2 MixinNumber" by simp
  from MixinNumber_once [of 0 Combinator] obtain K1 where
    first0: "mixinInits exampleClasses (exampleBodies 1) Combinator [Bare MixinNumber]
       (newObject Combinator) = Inr (K1, [Init MixinNumber Undefined])"
    and second0: "mixinInits exampleClasses (exampleBodies 1) Combinator [Bare MixinNumber] K1
       = Inr (K1, [])"
    and off: "\<not> multiMixin K1 MixinNumber"
    by auto
  note no = repeated_mixinInits [OF fresh _ init kp km first0 second0]
  from no [THEN conjunct2, THEN conjunct2, THEN conjunct1] off
  have "K1 = K1 \<and> ([] :: event list) = []" by simp
  with fresh init kp km first second m h field first0 second0 show ?thesis
    by (simp add: eventsOf_def finalOf_def)
qed

lemma finalizersIn_new_entry:
  assumes "DAList.lookup reg0 u = None"
  shows "finalizersIn c (DAList.impl_of (DAList.update u
            \<lparr>classApplyingMixin = c, destroyMethod = f\<rparr> reg0))
           = f # finalizersIn c (DAList.impl_of reg0)"
    and "appliedBy c (DAList.update u \<lparr>classApplyingMixin = c, destroyMethod = f\<rparr> reg0)
           = appliedBy c reg0 @ [u]"
  using assms by (simp_all add: impl_of_update_absent finalizersIn_def appliedBy_def)

text \<open>
  Claim C10. When the initializer of a mixin returns early because \<^verbatim>\<open>notApplicable\<close>
  answered true, \<^verbatim>\<open>mixinInits\<close> still completes: the members of the mixin are on the
  host, the registry has an entry for the mixin that holds the mixin's finalizer and the
  class that called \<^verbatim>\<open>mixinInits\<close>, \<^verbatim>\<open>hasMixin\<close> is true and the diagnostic is on the
  console. Nothing is rolled back. A later \<^verbatim>\<open>mixinDestroys\<close> for that class calls the
  finalizer of the mixin, and calls it first, the entry being the newest: on the host as
  \<^verbatim>\<open>mixinInits\<close> left it, the counter started. When the finalizer throws, so does
  \<^verbatim>\<open>mixinDestroys\<close>; when \<^verbatim>\<open>mixinDestroys\<close> returns, the finalizer has returned, and the
  finalizers of the older entries of the class were called on what it left.
\<close>

theorem failed_constraint_still_attached:
  assumes fresh: "\<not> hasMixin H U" and r: "mixinOf r = U"
    and fails: "\<not> instanceOf ct H T" "\<not> hasMixin H T"
    and name: "cname (decl ct U) \<noteq> ''constructor''"
    and init: "protoDesc ct U (cname (decl ct U)) = Some (Data (Fn ci ni))"
    and fin: "protoDesc ct U (cname (decl ct U) @ ''Destroy'') = Some (Data (Fn cf nf))"
    and guard: "\<forall>a s. snd (notApplicable ct s U T) \<longrightarrow>
                  bd ci ni a s = Inr (Undefined, fst (notApplicable ct s U T))"
  shows "\<exists>H' reg0. mixinInits ct bd C [r] H = Inr (H', [Init U (confOf r)])
       \<and> hasMixin H' U
       \<and> (\<forall>n d. protoDesc ct U n = Some d \<longrightarrow> own H' n = Some d)
       \<and> mixinsApplied (ensureRegistry ct H) = Some reg0
       \<and> mixinsApplied H' = Some (DAList.update U
             \<lparr>classApplyingMixin = C, destroyMethod = Fn cf nf\<rparr> reg0)
       \<and> DAList.impl_of (DAList.update U \<lparr>classApplyingMixin = C, destroyMethod = Fn cf nf\<rparr> reg0)
           = DAList.impl_of reg0 @ [(U, \<lparr>classApplyingMixin = C, destroyMethod = Fn cf nf\<rparr>)]
       \<and> console H' = console H @
            [Error (cname (decl ct (constructor H)) @ '' is not an instance of ''
               @ cname (decl ct T) @ '' and can not use mixin '' @ cname (decl ct U)
               @ ''. Correct this fault as it can lead to unpredictable behaviour.'')]
       \<and> (\<forall>e. bd cf nf Undefined (startCounter H') = Inl e \<longrightarrow> mixinDestroys bd C H' = Inl e)
       \<and> (\<forall>H'' evs. mixinDestroys bd C H' = Inr (H'', evs) \<longrightarrow>
            (\<exists>v t st2. bd cf nf Undefined (startCounter H') = Inr (v, t)
               \<and> callAll bd (finalizersIn C (DAList.impl_of reg0))
                    (t\<lparr>mixinsDestroyed := incr (mixinsDestroyed t)\<rparr>) = Inr st2
               \<and> H'' = retired st2)
            \<and> evs = Destroy U # map Destroy (rev (appliedBy C reg0)))"
proof -
  let ?n = "cname (decl ct U)"
  let ?s0 = "ensureRegistry ct H"
  let ?s1 = "applyMixin ct U ?s0"
  let ?s2 = "fst (notApplicable ct ?s1 U T)"
  let ?e = "\<lparr>classApplyingMixin = C, destroyMethod = Fn cf nf\<rparr>"
  obtain reg0 where reg0: "mixinsApplied ?s0 = Some reg0"
    by (cases "mixinsApplied ?s0") simp_all
  let ?reg = "DAList.update U ?e reg0"
  let ?H' = "?s2\<lparr>mixinsApplied := Some ?reg\<rparr>"
  from fails have na: "snd (notApplicable ct ?s1 U T)"
    by (simp add: notApplicable_def instanceOf_def)
  have s2: "?s2 = ?s1\<lparr>console := console ?s1 @
            [Error (cname (decl ct (constructor H)) @ '' is not an instance of ''
               @ cname (decl ct T) @ '' and can not use mixin '' @ cname (decl ct U)
               @ ''. Correct this fault as it can lead to unpredictable behaviour.'')]\<rparr>"
    using fails by (simp add: notApplicable_def instanceOf_def)
  have "own ?s1 ?n = Some (Data (Fn ci ni))" by (simp add: applyMixin_own init)
  with name have "callMethod ct bd ?n (confOf r) ?s1 = bd ci ni (confOf r) ?s1"
    by (simp add: callMethod_own callVal_def)
  with guard na have call: "callMethod ct bd ?n (confOf r) ?s1 = Inr (Undefined, ?s2)"
    by simp
  have own2: "own ?s2 = own ?s1" by (simp add: s2)
  have reg2: "mixinsApplied ?s2 = Some reg0" by (simp add: s2 reg0)
  have "?n @ ''Destroy'' \<noteq> ''constructor''"
  proof
    assume "?n @ ''Destroy'' = ''constructor''"
    then have "last (?n @ ''Destroy'') = last ''constructor''" by simp
    then show False by simp
  qed
  moreover have "own ?s2 (?n @ ''Destroy'') = Some (Data (Fn cf nf))"
    by (simp add: own2 applyMixin_own fin)
  ultimately have get: "getProp ct (?n @ ''Destroy'') ?s2 = Inr (Fn cf nf)"
    by (rule getProp_own)
  from fresh r have "\<not> hasMixin ?s0 (mixinOf r)" by simp
  then have run: "mixinInits ct bd C [r] H = Inr (?H', [Init U (confOf r)])"
    using call get reg2 r
    by (simp add: mixinInits_eq mixinInit_def Let_def bindThis_def)
  have has: "hasMixin ?H' U" by (simp add: hasMixin_def)
  have members: "\<forall>n d. protoDesc ct U n = Some d \<longrightarrow> own ?H' n = Some d"
    by (simp add: own2 applyMixin_own)
  have entry: "mixinsApplied ?H' = Some ?reg"
    by simp
  from fresh reg0 have absent: "DAList.lookup reg0 U = None"
    by (simp add: hasMixin_def ensureRegistry_def split: if_splits)
  then have last: "DAList.impl_of ?reg = DAList.impl_of reg0 @ [(U, ?e)]"
    by (rule impl_of_update_absent)
  have diag: "console ?H' = console H @
            [Error (cname (decl ct (constructor H)) @ '' is not an instance of ''
               @ cname (decl ct T) @ '' and can not use mixin '' @ cname (decl ct U)
               @ ''. Correct this fault as it can lead to unpredictable behaviour.'')]"
    by (simp add: s2)
  note fins = finalizersIn_new_entry [OF absent, of C "Fn cf nf"]
  have eq: "mixinDestroys bd C ?H' =
     bindE (callAll bd (Fn cf nf # finalizersIn C (DAList.impl_of reg0)) (startCounter ?H'))
       (\<lambda>st2. if mixinsApplied st2 = None then Inl TypeError
              else Inr (retired st2, map Destroy (rev (appliedBy C reg0 @ [U]))))"
    using mixinDestroys_callAll [OF entry, of bd C] unfolding fins .
  have throws: "\<forall>e. bd cf nf Undefined (startCounter ?H') = Inl e \<longrightarrow> mixinDestroys bd C ?H' = Inl e"
    unfolding eq by (simp add: callVal_def)
  have later: "\<forall>H'' evs. mixinDestroys bd C ?H' = Inr (H'', evs) \<longrightarrow>
            (\<exists>v t st2. bd cf nf Undefined (startCounter ?H') = Inr (v, t)
               \<and> callAll bd (finalizersIn C (DAList.impl_of reg0))
                    (t\<lparr>mixinsDestroyed := incr (mixinsDestroyed t)\<rparr>) = Inr st2
               \<and> H'' = retired st2)
            \<and> evs = Destroy U # map Destroy (rev (appliedBy C reg0))"
  proof (intro allI impI)
    fix H'' evs
    assume d: "mixinDestroys bd C ?H' = Inr (H'', evs)"
    then obtain st2 where
      all: "callAll bd (Fn cf nf # finalizersIn C (DAList.impl_of reg0)) (startCounter ?H') = Inr st2"
      and H'': "H'' = retired st2"
      and evs: "evs = Destroy U # map Destroy (rev (appliedBy C reg0))"
      unfolding eq by (auto simp: bindE_Inr_iff split: if_splits)
    from all obtain v t where
      "callVal bd (Fn cf nf) Undefined (startCounter ?H') = Inr (v, t)"
      and rest: "callAll bd (finalizersIn C (DAList.impl_of reg0))
                    (t\<lparr>mixinsDestroyed := incr (mixinsDestroyed t)\<rparr>) = Inr st2"
      unfolding callAll_Cons_Inr by blast
    then have "bd cf nf Undefined (startCounter ?H') = Inr (v, t)"
      by (simp add: callVal_def)
    with rest H'' evs show "(\<exists>v t st2. bd cf nf Undefined (startCounter ?H') = Inr (v, t)
               \<and> callAll bd (finalizersIn C (DAList.impl_of reg0))
                    (t\<lparr>mixinsDestroyed := incr (mixinsDestroyed t)\<rparr>) = Inr st2
               \<and> H'' = retired st2)
            \<and> evs = Destroy U # map Destroy (rev (appliedBy C reg0))"
      by blast
  qed
  show ?thesis
    apply (rule exI [of _ ?H'])
    apply (rule exI [of _ reg0])
    apply (intro conjI)
            apply (rule run)
           apply (rule has)
          apply (rule members)
         apply (rule reg0)
        apply (rule entry)
       apply (rule last)
      apply (rule diag)
     apply (rule throws)
    apply (rule later)
    done
qed

lemma MixinString_guard:
  "\<forall>a s. snd (notApplicable exampleClasses s MixinString MixinNumber) \<longrightarrow>
      exampleBodies (Suc k) MixinString ''MixinString'' a s
        = Inr (Undefined, fst (notApplicable exampleClasses s MixinString MixinNumber))"
  by (simp split: prod.splits)

lemma MixinString_alone:
  "\<exists>H' H''. mixinInits exampleClasses (exampleBodies (Suc k)) Combinator
          [With MixinString exampleConf False] (newObject Combinator)
            = Inr (H', [Init MixinString exampleConf])
       \<and> own H' ''myString'' = None
       \<and> exampleBodies (Suc k) MixinString ''MixinStringDestroy'' Undefined (startCounter H')
            = Inr (Undefined, startCounter H')
       \<and> mixinDestroys (exampleBodies (Suc k)) Combinator H' = Inr (H'', [Destroy MixinString])
       \<and> mixinsApplied H'' = None"
  by (simp add: startCounter_def framework_defs example_defs)

theorem failed_constraint_still_attached_witness:
  "\<not> hasMixin (newObject Combinator) MixinString
   \<and> \<not> instanceOf exampleClasses (newObject Combinator) MixinNumber
   \<and> \<not> hasMixin (newObject Combinator) MixinNumber
   \<and> eventsOf (mixinInits exampleClasses (exampleBodies 1) Combinator
        [With MixinString exampleConf False] (newObject Combinator))
       = Some [Init MixinString exampleConf]
   \<and> map_option (\<lambda>H'. hasMixin H' MixinString
          \<and> own H' ''getString'' = Some (Data (Fn MixinString ''getString''))
          \<and> own H' ''myString'' = None
          \<and> console H' = [Error ''Combinator is not an instance of MixinNumber and can not use mixin MixinString. Correct this fault as it can lead to unpredictable behaviour.'']
          \<and> exampleBodies 1 MixinString ''MixinStringDestroy'' Undefined (startCounter H')
              = Inr (Undefined, startCounter H')
          \<and> eventsOf (mixinDestroys (exampleBodies 1) Combinator H') = Some [Destroy MixinString]
          \<and> map_option mixinsApplied (finalOf (mixinDestroys (exampleBodies 1) Combinator H'))
              = Some None)
       (finalOf (mixinInits exampleClasses (exampleBodies 1) Combinator
          [With MixinString exampleConf False] (newObject Combinator)))
       = Some True
   \<and> map_option (\<lambda>H. own H ''myString'')
       (finalOf (runCalls exampleClasses (exampleBodies 1)
          [Inits Combinator [With MixinString exampleConf False],
           Inits Combinator [Bare MixinNumber],
           Inits Combinator [With MixinString exampleConf True]] (newObject Combinator)))
       = Some (Some (Data (Str ''Fave nr is: '')))
   \<and> eventsOf (runCalls exampleClasses (exampleBodies 1)
          [Inits Combinator [With MixinString exampleConf False],
           Inits Combinator [Bare MixinNumber],
           Inits Combinator [With MixinString exampleConf True],
           Destroys Combinator] (newObject Combinator))
       = Some [[Init MixinString exampleConf], [Init MixinNumber Undefined],
               [Init MixinString exampleConf], [Destroy MixinNumber, Destroy MixinString]]
   \<and> map_option (\<lambda>H. own H ''myString'')
       (finalOf (runCalls exampleClasses (exampleBodies 1)
          [Inits Combinator [With MixinString exampleConf False],
           Inits Combinator [Bare MixinNumber],
           Inits Combinator [With MixinString exampleConf True],
           Destroys Combinator] (newObject Combinator)))
       = Some None"
proof -
  let ?r = "With MixinString exampleConf False"
  let ?e = "\<lparr>classApplyingMixin = Combinator, destroyMethod = Fn MixinString ''MixinStringDestroy''\<rparr>"
  have fresh: "\<not> hasMixin (newObject Combinator) MixinString"
    and fails: "\<not> instanceOf exampleClasses (newObject Combinator) MixinNumber"
      "\<not> hasMixin (newObject Combinator) MixinNumber"
    by (simp_all add: hasMixin_def instanceOf_def newObject_def exampleClasses_def)
  have name: "cname (decl exampleClasses MixinString) \<noteq> ''constructor''"
    and init: "protoDesc exampleClasses MixinString (cname (decl exampleClasses MixinString))
       = Some (Data (Fn MixinString ''MixinString''))"
    and fin: "protoDesc exampleClasses MixinString (cname (decl exampleClasses MixinString) @ ''Destroy'')
       = Some (Data (Fn MixinString ''MixinStringDestroy''))"
    and member: "protoDesc exampleClasses MixinString ''getString''
       = Some (Data (Fn MixinString ''getString''))"
    by (simp_all add: protoDesc_def exampleClasses_def)
  from failed_constraint_still_attached [of "newObject Combinator" MixinString ?r exampleClasses
      MixinNumber MixinString "''MixinString''" MixinString "''MixinStringDestroy''"
      "exampleBodies 1" Combinator, OF fresh _ fails name init fin]
    MixinString_guard [of 0]
  have "\<exists>H' reg0. mixinInits exampleClasses (exampleBodies 1) Combinator [?r] (newObject Combinator)
            = Inr (H', [Init MixinString exampleConf])
       \<and> hasMixin H' MixinString
       \<and> (\<forall>n d. protoDesc exampleClasses MixinString n = Some d \<longrightarrow> own H' n = Some d)
       \<and> mixinsApplied (ensureRegistry exampleClasses (newObject Combinator)) = Some reg0
       \<and> mixinsApplied H' = Some (DAList.update MixinString ?e reg0)
       \<and> DAList.impl_of (DAList.update MixinString ?e reg0)
           = DAList.impl_of reg0 @ [(MixinString, ?e)]
       \<and> console H' = console (newObject Combinator) @
            [Error (cname (decl exampleClasses (constructor (newObject Combinator)))
               @ '' is not an instance of '' @ cname (decl exampleClasses MixinNumber)
               @ '' and can not use mixin '' @ cname (decl exampleClasses MixinString)
               @ ''. Correct this fault as it can lead to unpredictable behaviour.'')]
       \<and> (\<forall>e. exampleBodies 1 MixinString ''MixinStringDestroy'' Undefined (startCounter H') = Inl e
             \<longrightarrow> mixinDestroys (exampleBodies 1) Combinator H' = Inl e)
       \<and> (\<forall>H'' evs. mixinDestroys (exampleBodies 1) Combinator H' = Inr (H'', evs) \<longrightarrow>
            (\<exists>v t st2. exampleBodies 1 MixinString ''MixinStringDestroy'' Undefined (startCounter H')
                  = Inr (v, t)
               \<and> callAll (exampleBodies 1) (finalizersIn Combinator (DAList.impl_of reg0))
                    (t\<lparr>mixinsDestroyed := incr (mixinsDestroyed t)\<rparr>) = Inr st2
               \<and> H'' = retired st2)
            \<and> evs = Destroy MixinString # map Destroy (rev (appliedBy Combinator reg0)))"
    by simp
  then obtain H' reg0 where
    run: "mixinInits exampleClasses (exampleBodies 1) Combinator [?r] (newObject Combinator)
            = Inr (H', [Init MixinString exampleConf])"
    and has: "hasMixin H' MixinString"
    and members: "\<forall>n d. protoDesc exampleClasses MixinString n = Some d \<longrightarrow> own H' n = Some d"
    and diag: "console H' = console (newObject Combinator) @
            [Error (cname (decl exampleClasses (constructor (newObject Combinator)))
               @ '' is not an instance of '' @ cname (decl exampleClasses MixinNumber)
               @ '' and can not use mixin '' @ cname (decl exampleClasses MixinString)
               @ ''. Correct this fault as it can lead to unpredictable behaviour.'')]"
    by blast
  from members member have m: "own H' ''getString'' = Some (Data (Fn MixinString ''getString''))"
    by blast
  from diag have c: "console H' = [Error ''Combinator is not an instance of MixinNumber and can not use mixin MixinString. Correct this fault as it can lead to unpredictable behaviour.'']"
    by (simp add: newObject_def exampleClasses_def)
  from MixinString_alone [of 0] run obtain H'' where
    "own H' ''myString'' = None"
    "exampleBodies 1 MixinString ''MixinStringDestroy'' Undefined (startCounter H')
            = Inr (Undefined, startCounter H')"
    "mixinDestroys (exampleBodies 1) Combinator H' = Inr (H'', [Destroy MixinString])"
    "mixinsApplied H'' = None"
    by auto
  with fresh fails run has m c
  have first: "\<not> hasMixin (newObject Combinator) MixinString
   \<and> \<not> instanceOf exampleClasses (newObject Combinator) MixinNumber
   \<and> \<not> hasMixin (newObject Combinator) MixinNumber
   \<and> eventsOf (mixinInits exampleClasses (exampleBodies 1) Combinator
        [With MixinString exampleConf False] (newObject Combinator))
       = Some [Init MixinString exampleConf]
   \<and> map_option (\<lambda>H'. hasMixin H' MixinString
          \<and> own H' ''getString'' = Some (Data (Fn MixinString ''getString''))
          \<and> own H' ''myString'' = None
          \<and> console H' = [Error ''Combinator is not an instance of MixinNumber and can not use mixin MixinString. Correct this fault as it can lead to unpredictable behaviour.'']
          \<and> exampleBodies 1 MixinString ''MixinStringDestroy'' Undefined (startCounter H')
              = Inr (Undefined, startCounter H')
          \<and> eventsOf (mixinDestroys (exampleBodies 1) Combinator H') = Some [Destroy MixinString]
          \<and> map_option mixinsApplied (finalOf (mixinDestroys (exampleBodies 1) Combinator H'))
              = Some None)
       (finalOf (mixinInits exampleClasses (exampleBodies 1) Combinator
          [With MixinString exampleConf False] (newObject Combinator)))
       = Some True"
    by (simp add: eventsOf_def finalOf_def)
  have 1: "map_option (\<lambda>H. own H ''myString'')
       (finalOf (runCalls exampleClasses (exampleBodies 1)
          [Inits Combinator [With MixinString exampleConf False],
           Inits Combinator [Bare MixinNumber],
           Inits Combinator [With MixinString exampleConf True]] (newObject Combinator)))
       = Some (Some (Data (Str ''Fave nr is: '')))"
    by (simp add: finalOf_def framework_defs example_defs)
  have 2: "eventsOf (runCalls exampleClasses (exampleBodies 1)
          [Inits Combinator [With MixinString exampleConf False],
           Inits Combinator [Bare MixinNumber],
           Inits Combinator [With MixinString exampleConf True],
           Destroys Combinator] (newObject Combinator))
       = Some [[Init MixinString exampleConf], [Init MixinNumber Undefined],
               [Init MixinString exampleConf], [Destroy MixinNumber, Destroy MixinString]]"
    by (simp add: eventsOf_def framework_defs example_defs)
  have 3: "map_option (\<lambda>H. own H ''myString'')
       (finalOf (runCalls exampleClasses (exampleBodies 1)
          [Inits Combinator [With MixinString exampleConf False],
           Inits Combinator [Bare MixinNumber],
           Inits Combinator [With MixinString exampleConf True],
           Destroys Combinator] (newObject Combinator)))
       = Some None"
    by (simp add: finalOf_def framework_defs example_defs)
  from first 1 2 3 show ?thesis by blast
qed

section \<open>Teardown\<close>

lemma appliedBy_distinct: "distinct (appliedBy c reg)"
  unfolding appliedBy_def by (rule distinct_map_filter) simp

lemma exampleHost_registry:
  "DAList.impl_of (DAList.update MixinString
           \<lparr>classApplyingMixin = c2, destroyMethod = Fn MixinString ''MixinStringDestroy''\<rparr>
        (DAList.update MixinNumber
           \<lparr>classApplyingMixin = c1, destroyMethod = Fn MixinNumber ''MixinNumberDestroy''\<rparr>
         DAList.empty)) =
     [(MixinNumber, \<lparr>classApplyingMixin = c1, destroyMethod = Fn MixinNumber ''MixinNumberDestroy''\<rparr>),
      (MixinString, \<lparr>classApplyingMixin = c2, destroyMethod = Fn MixinString ''MixinStringDestroy''\<rparr>)]"
  by (simp add: DAList.update.rep_eq DAList.empty.rep_eq)

text \<open>
  Claim C3. The registry keeps the order in which mixins were applied. When the entry of
  \<open>U1\<close> comes before the entry of \<open>U2\<close> and both were made by the class \<open>C\<close>,
  \<^verbatim>\<open>mixinDestroys(C)\<close> calls the finalizers of the entries of \<open>C\<close> in reverse order, each
  once: that of \<open>U2\<close> is called, on the host as the finalizers of the later entries left
  it, before that of \<open>U1\<close>, which is called on the host as the finalizer of \<open>U2\<close> and
  those of the entries between the two left it. When \<^verbatim>\<open>mixinDestroys\<close> returns, both
  have returned, and the host is what the last finalizer left, without the registry if
  the counter has reached its size. When the finalizer of \<open>U2\<close> throws, \<^verbatim>\<open>mixinDestroys\<close>
  throws and the finalizer of \<open>U1\<close> is not reached.
\<close>

theorem teardown_reverse_order:
  assumes reg: "mixinsApplied H = Some reg"
    and order: "DAList.impl_of reg = xs @ (U1, e1) # ys @ (U2, e2) # zs"
    and by_c: "classApplyingMixin e1 = C" "classApplyingMixin e2 = C"
  shows "finalizersIn C (DAList.impl_of reg)
           = finalizersIn C zs @ destroyMethod e2 # finalizersIn C ys @ destroyMethod e1
               # finalizersIn C xs
       \<and> mixinDestroys bd C H =
           bindE (callAll bd (finalizersIn C (DAList.impl_of reg)) (startCounter H))
             (\<lambda>st2. if mixinsApplied st2 = None then Inl TypeError
                    else Inr (retired st2, map Destroy (rev (appliedBy C reg))))
       \<and> (\<forall>H' evs. mixinDestroys bd C H = Inr (H', evs) \<longrightarrow>
            (\<exists>sA c2 n2 vA tA sB c1 n1 vB tB st2.
                callAll bd (finalizersIn C zs) (startCounter H) = Inr sA
              \<and> destroyMethod e2 = Fn c2 n2 \<and> bd c2 n2 Undefined sA = Inr (vA, tA)
              \<and> callAll bd (finalizersIn C ys)
                   (tA\<lparr>mixinsDestroyed := incr (mixinsDestroyed tA)\<rparr>) = Inr sB
              \<and> destroyMethod e1 = Fn c1 n1 \<and> bd c1 n1 Undefined sB = Inr (vB, tB)
              \<and> callAll bd (finalizersIn C xs)
                   (tB\<lparr>mixinsDestroyed := incr (mixinsDestroyed tB)\<rparr>) = Inr st2
              \<and> H' = retired st2)
            \<and> evs = map Destroy (rev (appliedBy C reg))
            \<and> distinct evs
            \<and> (\<exists>as bs cs. evs = as @ Destroy U2 # bs @ Destroy U1 # cs))
       \<and> (\<forall>sA e. callAll bd (finalizersIn C zs) (startCounter H) = Inr sA
                 \<and> callVal bd (destroyMethod e2) Undefined sA = Inl e
             \<longrightarrow> mixinDestroys bd C H = Inl e)"
proof -
  let ?own = "\<lambda>l. map fst (filter (\<lambda>value. classApplyingMixin (snd value) = C) l)"
  let ?rest = "destroyMethod e2 # finalizersIn C ys @ destroyMethod e1 # finalizersIn C xs"
  from order by_c have split: "finalizersIn C (DAList.impl_of reg) = finalizersIn C zs @ ?rest"
    by (simp add: finalizersIn_def)
  note eq = mixinDestroys_callAll [OF reg, of bd C]
  have returns: "(\<exists>sA c2 n2 vA tA sB c1 n1 vB tB st2.
                callAll bd (finalizersIn C zs) (startCounter H) = Inr sA
              \<and> destroyMethod e2 = Fn c2 n2 \<and> bd c2 n2 Undefined sA = Inr (vA, tA)
              \<and> callAll bd (finalizersIn C ys)
                   (tA\<lparr>mixinsDestroyed := incr (mixinsDestroyed tA)\<rparr>) = Inr sB
              \<and> destroyMethod e1 = Fn c1 n1 \<and> bd c1 n1 Undefined sB = Inr (vB, tB)
              \<and> callAll bd (finalizersIn C xs)
                   (tB\<lparr>mixinsDestroyed := incr (mixinsDestroyed tB)\<rparr>) = Inr st2
              \<and> H' = retired st2)
            \<and> evs = map Destroy (rev (appliedBy C reg))
            \<and> distinct evs
            \<and> (\<exists>as bs cs. evs = as @ Destroy U2 # bs @ Destroy U1 # cs)"
    if run: "mixinDestroys bd C H = Inr (H', evs)" for H' evs
  proof -
    from mixinDestroys_calls [OF reg run] obtain st2 where
      all: "callAll bd (finalizersIn C (DAList.impl_of reg)) (startCounter H) = Inr st2"
      and H': "H' = retired st2"
      and evs: "evs = map Destroy (rev (appliedBy C reg))"
      by blast
    from all obtain sA where
      a: "callAll bd (finalizersIn C zs) (startCounter H) = Inr sA"
      and "callAll bd ?rest sA = Inr st2"
      unfolding split callAll_append bindE_Inr_iff by blast
    then obtain vA tA where
      b: "callVal bd (destroyMethod e2) Undefined sA = Inr (vA, tA)"
      and "callAll bd (finalizersIn C ys @ destroyMethod e1 # finalizersIn C xs)
             (tA\<lparr>mixinsDestroyed := incr (mixinsDestroyed tA)\<rparr>) = Inr st2"
      unfolding callAll_Cons_Inr by blast
    then obtain sB where
      c: "callAll bd (finalizersIn C ys) (tA\<lparr>mixinsDestroyed := incr (mixinsDestroyed tA)\<rparr>) = Inr sB"
      and "callAll bd (destroyMethod e1 # finalizersIn C xs) sB = Inr st2"
      unfolding callAll_append bindE_Inr_iff by blast
    then obtain vB tB where
      d: "callVal bd (destroyMethod e1) Undefined sB = Inr (vB, tB)"
      and e: "callAll bd (finalizersIn C xs) (tB\<lparr>mixinsDestroyed := incr (mixinsDestroyed tB)\<rparr>) = Inr st2"
      unfolding callAll_Cons_Inr by blast
    from callVal_Inr [OF b] obtain c2 n2 where
      b': "destroyMethod e2 = Fn c2 n2" "bd c2 n2 Undefined sA = Inr (vA, tA)" by blast
    from callVal_Inr [OF d] obtain c1 n1 where
      d': "destroyMethod e1 = Fn c1 n1" "bd c1 n1 Undefined sB = Inr (vB, tB)" by blast
    from a b' c d' e H' have calls: "\<exists>sA c2 n2 vA tA sB c1 n1 vB tB st2.
                callAll bd (finalizersIn C zs) (startCounter H) = Inr sA
              \<and> destroyMethod e2 = Fn c2 n2 \<and> bd c2 n2 Undefined sA = Inr (vA, tA)
              \<and> callAll bd (finalizersIn C ys)
                   (tA\<lparr>mixinsDestroyed := incr (mixinsDestroyed tA)\<rparr>) = Inr sB
              \<and> destroyMethod e1 = Fn c1 n1 \<and> bd c1 n1 Undefined sB = Inr (vB, tB)
              \<and> callAll bd (finalizersIn C xs)
                   (tB\<lparr>mixinsDestroyed := incr (mixinsDestroyed tB)\<rparr>) = Inr st2
              \<and> H' = retired st2"
      by blast
    from order by_c have "appliedBy C reg = ?own xs @ U1 # ?own ys @ U2 # ?own zs"
      by (simp add: appliedBy_def)
    with evs have "evs = map Destroy (rev (?own zs)) @ Destroy U2 # map Destroy (rev (?own ys))
                     @ Destroy U1 # map Destroy (rev (?own xs))"
      by simp
    then have "\<exists>as bs cs. evs = as @ Destroy U2 # bs @ Destroy U1 # cs"
      by blast
    moreover have "distinct evs"
      unfolding evs by (simp add: distinct_map appliedBy_distinct inj_on_def)
    ultimately show ?thesis using calls evs by blast
  qed
  have throws: "mixinDestroys bd C H = Inl e"
    if "callAll bd (finalizersIn C zs) (startCounter H) = Inr sA
          \<and> callVal bd (destroyMethod e2) Undefined sA = Inl e" for sA e
    using that unfolding eq split callAll_append by simp
  from split eq returns throws show ?thesis by blast
qed

lemma destroy_exampleHost_state:
  "\<exists>H'. mixinDestroys (exampleBodies (Suc k)) Combinator (exampleHost Combinator Combinator)
          = Inr (H', [Destroy MixinString, Destroy MixinNumber])
       \<and> own H' ''myString'' = None \<and> own H' ''myNumber'' = None \<and> mixinsApplied H' = None"
  by (simp add: exampleHost_def framework_defs example_defs)

theorem teardown_reverse_order_witness:
  "mixinsApplied (exampleHost Combinator Combinator) = Some
        (DAList.update MixinString
           \<lparr>classApplyingMixin = Combinator, destroyMethod = Fn MixinString ''MixinStringDestroy''\<rparr>
        (DAList.update MixinNumber
           \<lparr>classApplyingMixin = Combinator, destroyMethod = Fn MixinNumber ''MixinNumberDestroy''\<rparr>
         DAList.empty))
   \<and> finalOf (runCalls exampleClasses (exampleBodies 1)
        [Inits Combinator [Bare MixinNumber], Inits Combinator [With MixinString exampleConf False]]
        (newObject Combinator)) = Some (exampleHost Combinator Combinator)
   \<and> finalizersIn Combinator (DAList.impl_of
        (DAList.update MixinString
           \<lparr>classApplyingMixin = Combinator, destroyMethod = Fn MixinString ''MixinStringDestroy''\<rparr>
        (DAList.update MixinNumber
           \<lparr>classApplyingMixin = Combinator, destroyMethod = Fn MixinNumber ''MixinNumberDestroy''\<rparr>
         DAList.empty)))
       = [Fn MixinString ''MixinStringDestroy'', Fn MixinNumber ''MixinNumberDestroy'']
   \<and> eventsOf (mixinDestroys (exampleBodies 1) Combinator (exampleHost Combinator Combinator))
       = Some [Destroy MixinString, Destroy MixinNumber]
   \<and> map_option (\<lambda>H'. own H' ''myString'' = None \<and> own H' ''myNumber'' = None)
       (finalOf (mixinDestroys (exampleBodies 1) Combinator (exampleHost Combinator Combinator)))
       = Some True"
proof -
  let ?e1 = "\<lparr>classApplyingMixin = Combinator, destroyMethod = Fn MixinNumber ''MixinNumberDestroy''\<rparr>"
  let ?e2 = "\<lparr>classApplyingMixin = Combinator, destroyMethod = Fn MixinString ''MixinStringDestroy''\<rparr>"
  let ?reg = "DAList.update MixinString ?e2 (DAList.update MixinNumber ?e1 DAList.empty)"
  have reg: "mixinsApplied (exampleHost Combinator Combinator) = Some ?reg"
    by (simp add: exampleHost_def)
  have order: "DAList.impl_of ?reg = [] @ (MixinNumber, ?e1) # [] @ (MixinString, ?e2) # []"
    by (simp add: exampleHost_registry)
  from destroy_exampleHost_state [of 0] obtain H' where
    run: "mixinDestroys (exampleBodies 1) Combinator (exampleHost Combinator Combinator)
            = Inr (H', [Destroy MixinString, Destroy MixinNumber])"
    and fields: "own H' ''myString'' = None" "own H' ''myNumber'' = None"
    by auto
  note fact = teardown_reverse_order [OF reg order, of Combinator "exampleBodies 1"]
  from fact [THEN conjunct1]
  have fins: "finalizersIn Combinator (DAList.impl_of ?reg)
       = [Fn MixinString ''MixinStringDestroy'', Fn MixinNumber ''MixinNumberDestroy'']"
    by (simp add: finalizersIn_def)
  from fact [THEN conjunct2, THEN conjunct2, THEN conjunct1, rule_format, OF _ _ run]
  have "[Destroy MixinString, Destroy MixinNumber] = map Destroy (rev (appliedBy Combinator ?reg))"
    by simp
  with run reg fins fields exampleHost_reached [of 0 Combinator Combinator] show ?thesis
    by (simp add: eventsOf_def finalOf_def)
qed

lemma selected_single:
  assumes "appliedBy c reg = [u]" and "DAList.lookup reg u = Some e"
  shows "selected c reg = [(u, e)]"
proof -
  let ?f = "filter (\<lambda>value. classApplyingMixin (snd value) = c) (DAList.impl_of reg)"
  from assms(1) have "map fst ?f = [u]" by (simp add: appliedBy_def)
  then obtain e' where f: "?f = [(u, e')]" by (cases ?f) auto
  then have "(u, e') \<in> set ?f" by simp
  then have "(u, e') \<in> set (DAList.impl_of reg)" by simp
  then have "map_of (DAList.impl_of reg) u = Some e'" by simp
  with assms(2) have "e' = e" by (simp add: DAList.lookup.rep_eq)
  with f show ?thesis by (simp add: selected_def)
qed

lemma impl_of_lookup:
  "(k, v) \<in> set (DAList.impl_of reg) \<Longrightarrow> DAList.lookup reg k = Some v"
  by (simp add: DAList.lookup.rep_eq)

lemma lookup_impl_of:
  "DAList.lookup reg k = Some v \<Longrightarrow> (k, v) \<in> set (DAList.impl_of reg)"
  by (simp add: DAList.lookup.rep_eq)

text \<open>
  Claim C4, as the code has it. On a host where class \<open>C1\<close> applied \<open>U1\<close> and another
  class \<open>C2\<close> applied \<open>U2\<close>, a \<^verbatim>\<open>mixinDestroys(C1)\<close> that returns has called the
  finalizers of the entries made by \<open>C1\<close>, that of \<open>U1\<close> among them, and no other: not
  that of \<open>U2\<close>. When \<open>U1\<close> is all that \<open>C1\<close> applied, the host afterwards is what the
  one call of the finalizer of \<open>U1\<close> returned, with the counter one higher. The
  properties that carry the members of \<open>U2\<close> are as before. \<^verbatim>\<open>hasMixin\<close> is still true for
  \<open>U2\<close> unless the call has brought the counter to the size of the registry: then
  registry and counter are removed, and \<^verbatim>\<open>hasMixin\<close> is false for \<open>U2\<close>. The finalizers
  are code of the mixins: those of the entries of \<open>C1\<close> are taken to leave the private
  fields and the member properties of \<open>U2\<close> alone.
\<close>

theorem teardown_scoped:
  assumes reg: "mixinsApplied H = Some reg"
    and e1: "DAList.lookup reg U1 = Some e1" "classApplyingMixin e1 = C1"
    and e2: "DAList.lookup reg U2 = Some e2" "classApplyingMixin e2 = C2" "C2 \<noteq> C1"
    and kp: "\<forall>x \<in> set (DAList.impl_of reg). classApplyingMixin (snd x) = C1
               \<longrightarrow> keepsPrivate bd (destroyMethod (snd x))"
    and km: "\<forall>x \<in> set (DAList.impl_of reg). classApplyingMixin (snd x) = C1
               \<longrightarrow> keepsMembers ct bd (destroyMethod (snd x)) U2"
    and run: "mixinDestroys bd C1 H = Inr (H', evs)"
  shows "(\<exists>st2. callAll bd (finalizersIn C1 (DAList.impl_of reg)) (startCounter H) = Inr st2
              \<and> H' = retired st2)
       \<and> evs = map Destroy (rev (appliedBy C1 reg))
       \<and> U1 \<in> set (appliedBy C1 reg)
       \<and> U2 \<notin> set (appliedBy C1 reg)
       \<and> (appliedBy C1 reg = [U1] \<longrightarrow>
            finalizersIn C1 (DAList.impl_of reg) = [destroyMethod e1]
            \<and> (\<exists>c1 n1 v t. destroyMethod e1 = Fn c1 n1
                  \<and> bd c1 n1 Undefined (startCounter H) = Inr (v, t)
                  \<and> H' = retired (t\<lparr>mixinsDestroyed := incr (mixinsDestroyed t)\<rparr>))
            \<and> evs = [Destroy U1])
       \<and> (\<forall>n. protoDesc ct U2 n \<noteq> None \<longrightarrow> own H' n = own H n)
       \<and> (hasMixin H' U2 \<longleftrightarrow>
            mixinsDestroyed H = CNaN
            \<or> counted (mixinsDestroyed H) + length (appliedBy C1 reg) \<noteq> length (DAList.impl_of reg))
       \<and> (mixinsApplied H' = Some reg \<or> mixinsApplied H' = None \<and> mixinsDestroyed H' = CUndefined)"
proof -
  let ?fs = "finalizersIn C1 (DAList.impl_of reg)"
  let ?k = "length (appliedBy C1 reg)"
  from mixinDestroys_calls [OF reg run] obtain st2 where
    all: "callAll bd ?fs (startCounter H) = Inr st2"
    and H': "H' = retired st2"
    and evs: "evs = map Destroy (rev (appliedBy C1 reg))"
    by blast
  from all H' have calls: "\<exists>st2. callAll bd ?fs (startCounter H) = Inr st2 \<and> H' = retired st2"
    by blast
  from lookup_impl_of [OF e1(1)] e1(2)
  have "(U1, e1) \<in> set (filter (\<lambda>value. classApplyingMixin (snd value) = C1) (DAList.impl_of reg))"
    by simp
  then have "fst (U1, e1) \<in> fst ` set (filter (\<lambda>value. classApplyingMixin (snd value) = C1)
                                       (DAList.impl_of reg))"
    by (rule imageI)
  then have in1: "U1 \<in> set (appliedBy C1 reg)"
    by (simp add: appliedBy_def)
  have out2: "U2 \<notin> set (appliedBy C1 reg)"
  proof
    assume "U2 \<in> set (appliedBy C1 reg)"
    then have "U2 \<in> fst ` {x \<in> set (DAList.impl_of reg). classApplyingMixin (snd x) = C1}"
      by (simp add: appliedBy_def)
    then obtain x where x: "x \<in> set (DAList.impl_of reg)" "classApplyingMixin (snd x) = C1"
      "U2 = fst x"
      by blast
    then have "(U2, snd x) \<in> set (DAList.impl_of reg)" by simp
    from impl_of_lookup [OF this] e2(1) have "snd x = e2" by simp
    with x(2) e2(2,3) show False by simp
  qed
  have single: "finalizersIn C1 (DAList.impl_of reg) = [destroyMethod e1]
            \<and> (\<exists>c1 n1 v t. destroyMethod e1 = Fn c1 n1
                  \<and> bd c1 n1 Undefined (startCounter H) = Inr (v, t)
                  \<and> H' = retired (t\<lparr>mixinsDestroyed := incr (mixinsDestroyed t)\<rparr>))
            \<and> evs = [Destroy U1]"
    if only: "appliedBy C1 reg = [U1]"
  proof -
    have "selected C1 reg = [(U1, e1)]" using only e1(1) by (rule selected_single)
    then have fins: "?fs = [destroyMethod e1]"
      by (simp add: finalizersIn_selected)
    from all obtain v t where
      t: "callVal bd (destroyMethod e1) Undefined (startCounter H) = Inr (v, t)"
      and st2: "st2 = t\<lparr>mixinsDestroyed := incr (mixinsDestroyed t)\<rparr>"
      unfolding fins callAll_Cons_Inr by auto
    from callVal_Inr [OF t] obtain c1 n1 where
      body: "destroyMethod e1 = Fn c1 n1" "bd c1 n1 Undefined (startCounter H) = Inr (v, t)"
      by blast
    from H' st2 have "H' = retired (t\<lparr>mixinsDestroyed := incr (mixinsDestroyed t)\<rparr>)"
      by simp
    with body have "\<exists>c1 n1 v t. destroyMethod e1 = Fn c1 n1
                  \<and> bd c1 n1 Undefined (startCounter H) = Inr (v, t)
                  \<and> H' = retired (t\<lparr>mixinsDestroyed := incr (mixinsDestroyed t)\<rparr>)"
      by blast
    moreover from evs only have "evs = [Destroy U1]" by simp
    ultimately show ?thesis using fins by blast
  qed
  from kp have "\<forall>f \<in> set ?fs. keepsPrivate bd f"
    by (auto simp: finalizersIn_def)
  from callAll_private [OF this all]
  have reg2: "mixinsApplied st2 = Some reg"
    and cnt2: "mixinsDestroyed st2 = (incr ^^ ?k) (mixinsDestroyed (startCounter H))"
    by (simp_all add: reg length_finalizersIn)
  have cnt: "CNum (length (DAList.impl_of reg)) = mixinsDestroyed st2
       \<longleftrightarrow> \<not> (mixinsDestroyed H = CNaN
              \<or> counted (mixinsDestroyed H) + ?k \<noteq> length (DAList.impl_of reg))"
  proof (cases "mixinsDestroyed H")
    case CUndefined
    then have "mixinsDestroyed (startCounter H) = CNum 0" by (simp add: startCounter_def)
    with cnt2 have "mixinsDestroyed st2 = CNum ?k" by (simp add: incr_funpow_CNum)
    with CUndefined show ?thesis by (auto simp: counted_def)
  next
    case (CNum n)
    then have "mixinsDestroyed (startCounter H) = CNum n" by (simp add: startCounter_def)
    with cnt2 have "mixinsDestroyed st2 = CNum (n + ?k)" by (simp add: incr_funpow_CNum)
    with CNum show ?thesis by (auto simp: counted_def)
  next
    case CNaN
    then have "mixinsDestroyed (startCounter H) = CNaN" by (simp add: startCounter_def)
    with cnt2 have "mixinsDestroyed st2 = CNaN" by (simp add: incr_funpow_CNaN)
    with CNaN show ?thesis by simp
  qed
  have has: "hasMixin H' U2 \<longleftrightarrow>
            mixinsDestroyed H = CNaN
            \<or> counted (mixinsDestroyed H) + ?k \<noteq> length (DAList.impl_of reg)"
  proof (cases "CNum (length (DAList.impl_of reg)) = mixinsDestroyed st2")
    case True
    then have "mixinsApplied H' = None" by (simp add: H' reg2 retired_def)
    with True cnt show ?thesis by (simp add: hasMixin_def)
  next
    case False
    then have "mixinsApplied H' = Some reg" by (simp add: H' reg2 retired_def)
    with False cnt e2(1) show ?thesis by (simp add: hasMixin_def)
  qed
  have life: "mixinsApplied H' = Some reg
       \<or> mixinsApplied H' = None \<and> mixinsDestroyed H' = CUndefined"
    by (simp add: H' reg2 retired_def)
  from mixinDestroys_Some [OF reg run] obtain st3 reg3 where
    loop: "forEach (mixinDestroy bd) (selected C1 reg) (startCounter H, []) = Inr (st3, evs)"
    and "mixinsApplied st3 = Some reg3"
    and st3: "H' = (if CNum (length (DAList.impl_of reg3)) = mixinsDestroyed st3
                then st3\<lparr>mixinsApplied := None, mixinsDestroyed := CUndefined\<rparr> else st3)"
    by blast
  let ?P = "\<lambda>s. \<forall>n. protoDesc ct U2 n \<noteq> None \<longrightarrow> own s n = own H n"
  have "?P st3"
  proof (rule forEach_mixinDestroy_preserves [where P = ?P, OF _ _ loop])
    show "\<forall>x\<in>set (selected C1 reg). \<forall>s v t.
       callVal bd (destroyMethod (snd x)) Undefined s = Inr (v, t) \<longrightarrow> ?P s \<longrightarrow> ?P t"
    proof (intro ballI allI impI)
      fix x s v t n
      assume x: "x \<in> set (selected C1 reg)"
        and t: "callVal bd (destroyMethod (snd x)) Undefined s = Inr (v, t)"
        and P: "?P s" and n: "protoDesc ct U2 n \<noteq> None"
      from x km have "keepsMembers ct bd (destroyMethod (snd x)) U2"
        by (simp add: selected_def)
      with t n have "own t n = own s n" unfolding keepsMembers_def by blast
      with P n show "own t n = own H n" by simp
    qed
    show "\<And>s c. ?P s \<Longrightarrow> ?P (s\<lparr>mixinsDestroyed := c\<rparr>)" by simp
    show "?P (startCounter H)" by simp
  qed
  with st3 have members: "?P H'" by simp
  from single have single': "appliedBy C1 reg = [U1] \<longrightarrow>
            finalizersIn C1 (DAList.impl_of reg) = [destroyMethod e1]
            \<and> (\<exists>c1 n1 v t. destroyMethod e1 = Fn c1 n1
                  \<and> bd c1 n1 Undefined (startCounter H) = Inr (v, t)
                  \<and> H' = retired (t\<lparr>mixinsDestroyed := incr (mixinsDestroyed t)\<rparr>))
            \<and> evs = [Destroy U1]"
    by blast
  show ?thesis
    apply (intro conjI)
           apply (rule calls)
          apply (rule evs)
         apply (rule in1)
        apply (rule out2)
       apply (rule single')
      apply (rule members)
     apply (rule has)
    apply (rule life)
    done
qed

lemma MixinNumberDestroy_keepsMembers:
  "keepsMembers exampleClasses (exampleBodies k) (Fn MixinNumber ''MixinNumberDestroy'') MixinString"
proof (cases k)
  case 0
  then show ?thesis by (simp add: keepsMembers_def callVal_def)
next
  case (Suc j)
  then show ?thesis
    by (auto simp: keepsMembers_def callVal_def deleteProp_def protoDesc_def exampleClasses_def)
qed

lemma teardown_BaseClass_state:
  "\<exists>H'. mixinDestroys (exampleBodies (Suc k)) BaseClass (exampleHost BaseClass Combinator)
          = Inr (H', [Destroy MixinNumber])
       \<and> own H' ''myNumber'' = None
       \<and> own H' ''myString'' = Some (Data (Str ''Fave nr is: ''))
       \<and> mixinsDestroyed H' = CNum 1"
  by (simp add: exampleHost_def framework_defs example_defs)

theorem teardown_scoped_witness:
  "finalOf (runCalls exampleClasses (exampleBodies 1)
        [Inits BaseClass [Bare MixinNumber], Inits Combinator [With MixinString exampleConf False]]
        (newObject Combinator)) = Some (exampleHost BaseClass Combinator)
   \<and> mixinsDestroyed (exampleHost BaseClass Combinator) = CUndefined
   \<and> Combinator \<noteq> BaseClass
   \<and> eventsOf (mixinDestroys (exampleBodies 1) BaseClass (exampleHost BaseClass Combinator))
       = Some [Destroy MixinNumber]
   \<and> map_option (\<lambda>H'. hasMixin H' MixinString
           \<and> own H' ''getString'' = Some (Data (Fn MixinString ''getString''))
           \<and> own H' ''myString'' = Some (Data (Str ''Fave nr is: ''))
           \<and> own H' ''myNumber'' = None
           \<and> mixinsDestroyed H' = CNum 1)
       (finalOf (mixinDestroys (exampleBodies 1) BaseClass (exampleHost BaseClass Combinator)))
       = Some True"
proof -
  let ?H = "exampleHost BaseClass Combinator"
  let ?e1 = "\<lparr>classApplyingMixin = BaseClass, destroyMethod = Fn MixinNumber ''MixinNumberDestroy''\<rparr>"
  let ?e2 = "\<lparr>classApplyingMixin = Combinator, destroyMethod = Fn MixinString ''MixinStringDestroy''\<rparr>"
  let ?reg = "DAList.update MixinString ?e2 (DAList.update MixinNumber ?e1 DAList.empty)"
  have reg: "mixinsApplied ?H = Some ?reg" by (simp add: exampleHost_def)
  have only: "appliedBy BaseClass ?reg = [MixinNumber]"
    by (simp add: appliedBy_def exampleHost_registry)
  have e1: "DAList.lookup ?reg MixinNumber = Some ?e1" by (simp add: DAList.lookup_update)
  have e2: "DAList.lookup ?reg MixinString = Some ?e2" by (simp add: DAList.lookup_update)
  have undef: "mixinsDestroyed ?H = CUndefined" by (simp add: exampleHost_def)
  have kp: "\<forall>x \<in> set (DAList.impl_of ?reg). classApplyingMixin (snd x) = BaseClass
               \<longrightarrow> keepsPrivate (exampleBodies 1) (destroyMethod (snd x))"
    by (simp add: exampleBodies_keepsPrivate)
  have km: "\<forall>x \<in> set (DAList.impl_of ?reg). classApplyingMixin (snd x) = BaseClass
               \<longrightarrow> keepsMembers exampleClasses (exampleBodies 1) (destroyMethod (snd x)) MixinString"
    using MixinNumberDestroy_keepsMembers [of 1] by (simp add: exampleHost_registry)
  from teardown_BaseClass_state [of 0] obtain H' where
    run: "mixinDestroys (exampleBodies 1) BaseClass ?H = Inr (H', [Destroy MixinNumber])"
    and fields: "own H' ''myNumber'' = None"
      "own H' ''myString'' = Some (Data (Str ''Fave nr is: ''))" "mixinsDestroyed H' = CNum 1"
    by auto
  have member: "protoDesc exampleClasses MixinString ''getString'' \<noteq> None"
    by (simp add: protoDesc_def exampleClasses_def)
  have size: "counted (mixinsDestroyed ?H) + length (appliedBy BaseClass ?reg)
                \<noteq> length (DAList.impl_of ?reg)"
    by (simp add: undef counted_def only exampleHost_registry)
  note fact = teardown_scoped [OF reg e1 _ e2 _ _ kp km run]
  from fact [THEN conjunct2, THEN conjunct2, THEN conjunct2, THEN conjunct2, THEN conjunct2,
             THEN conjunct1, rule_format, OF _ _ _ member]
  have "own H' ''getString'' = own ?H ''getString''" by simp
  then have getString: "own H' ''getString'' = Some (Data (Fn MixinString ''getString''))"
    by (simp add: exampleHost_def)
  from fact [THEN conjunct2, THEN conjunct2, THEN conjunct2, THEN conjunct2, THEN conjunct2,
             THEN conjunct2, THEN conjunct1] size
  have "hasMixin H' MixinString" by simp
  with run undef fields getString exampleHost_reached [of 0 BaseClass Combinator] show ?thesis
    by (simp add: eventsOf_def finalOf_def)
qed

text \<open>
  Claim C4 as the specification states it fails where the call brings the counter to the
  size of the registry. On the host where \<^verbatim>\<open>BaseClass\<close> applied \<^verbatim>\<open>MixinNumber\<close> and
  \<^verbatim>\<open>Combinator\<close> applied \<^verbatim>\<open>MixinString\<close>, after \<^verbatim>\<open>mixinDestroys(Combinator)\<close> both mixins
  are in the registry still and the counter is one; \<^verbatim>\<open>mixinDestroys(BaseClass)\<close> then
  calls the finalizer of \<^verbatim>\<open>MixinNumber\<close> only, the counter reaches two, the registry is
  removed and \<^verbatim>\<open>hasMixin\<close> is false for \<^verbatim>\<open>MixinString\<close>. The same happens to a
  \<^verbatim>\<open>MixinString\<close> that was never torn down, its field still on the host, when
  \<^verbatim>\<open>mixinDestroys(BaseClass)\<close> runs a second time.
\<close>

theorem teardown_scoped_counterexample:
  "finalOf (runCalls exampleClasses (exampleBodies 1)
        [Inits BaseClass [Bare MixinNumber], Inits Combinator [With MixinString exampleConf False]]
        (newObject Combinator)) = Some (exampleHost BaseClass Combinator)
   \<and> map_option (\<lambda>H. hasMixin H MixinNumber \<and> hasMixin H MixinString
           \<and> registryOf H = registryOf (exampleHost BaseClass Combinator)
           \<and> mixinsDestroyed H = CNum 1)
       (finalOf (runCalls exampleClasses (exampleBodies 1) [Destroys Combinator]
          (exampleHost BaseClass Combinator))) = Some True
   \<and> eventsOf (runCalls exampleClasses (exampleBodies 1) [Destroys Combinator, Destroys BaseClass]
        (exampleHost BaseClass Combinator)) = Some [[Destroy MixinString], [Destroy MixinNumber]]
   \<and> map_option (\<lambda>H'. hasMixin H' MixinString)
       (finalOf (runCalls exampleClasses (exampleBodies 1) [Destroys Combinator, Destroys BaseClass]
          (exampleHost BaseClass Combinator))) = Some False
   \<and> map_option (\<lambda>H. hasMixin H MixinNumber \<and> hasMixin H MixinString
           \<and> own H ''myString'' = Some (Data (Str ''Fave nr is: ''))
           \<and> mixinsDestroyed H = CNum 1)
       (finalOf (runCalls exampleClasses (exampleBodies 1) [Destroys BaseClass]
          (exampleHost BaseClass Combinator))) = Some True
   \<and> eventsOf (runCalls exampleClasses (exampleBodies 1) [Destroys BaseClass, Destroys BaseClass]
        (exampleHost BaseClass Combinator)) = Some [[Destroy MixinNumber], [Destroy MixinNumber]]
   \<and> map_option (\<lambda>H'. hasMixin H' MixinString)
       (finalOf (runCalls exampleClasses (exampleBodies 1) [Destroys BaseClass, Destroys BaseClass]
          (exampleHost BaseClass Combinator))) = Some False
   \<and> map_option (\<lambda>H'. own H' ''myString'')
       (finalOf (runCalls exampleClasses (exampleBodies 1) [Destroys BaseClass, Destroys BaseClass]
          (exampleHost BaseClass Combinator))) = Some (Some (Data (Str ''Fave nr is: '')))"
proof -
  have 1: "map_option (\<lambda>H. hasMixin H MixinNumber \<and> hasMixin H MixinString
           \<and> registryOf H = registryOf (exampleHost BaseClass Combinator)
           \<and> mixinsDestroyed H = CNum 1)
       (finalOf (runCalls exampleClasses (exampleBodies 1) [Destroys Combinator]
          (exampleHost BaseClass Combinator))) = Some True"
    by (simp add: exampleHost_def registryOf_def finalOf_def framework_defs example_defs)
  have 2: "eventsOf (runCalls exampleClasses (exampleBodies 1) [Destroys Combinator, Destroys BaseClass]
        (exampleHost BaseClass Combinator)) = Some [[Destroy MixinString], [Destroy MixinNumber]]"
    by (simp add: exampleHost_def eventsOf_def framework_defs example_defs)
  have 3: "map_option (\<lambda>H'. hasMixin H' MixinString)
       (finalOf (runCalls exampleClasses (exampleBodies 1) [Destroys Combinator, Destroys BaseClass]
          (exampleHost BaseClass Combinator))) = Some False"
    by (simp add: exampleHost_def finalOf_def framework_defs example_defs)
  have 4: "map_option (\<lambda>H. hasMixin H MixinNumber \<and> hasMixin H MixinString
           \<and> own H ''myString'' = Some (Data (Str ''Fave nr is: ''))
           \<and> mixinsDestroyed H = CNum 1)
       (finalOf (runCalls exampleClasses (exampleBodies 1) [Destroys BaseClass]
          (exampleHost BaseClass Combinator))) = Some True"
    by (simp add: exampleHost_def finalOf_def framework_defs example_defs)
  have 5: "eventsOf (runCalls exampleClasses (exampleBodies 1) [Destroys BaseClass, Destroys BaseClass]
        (exampleHost BaseClass Combinator)) = Some [[Destroy MixinNumber], [Destroy MixinNumber]]"
    by (simp add: exampleHost_def eventsOf_def framework_defs example_defs)
  have 6: "map_option (\<lambda>H'. hasMixin H' MixinString)
       (finalOf (runCalls exampleClasses (exampleBodies 1) [Destroys BaseClass, Destroys BaseClass]
          (exampleHost BaseClass Combinator))) = Some False"
    by (simp add: exampleHost_def finalOf_def framework_defs example_defs)
  have 7: "map_option (\<lambda>H'. own H' ''myString'')
       (finalOf (runCalls exampleClasses (exampleBodies 1) [Destroys BaseClass, Destroys BaseClass]
          (exampleHost BaseClass Combinator))) = Some (Some (Data (Str ''Fave nr is: '')))"
    by (simp add: exampleHost_def finalOf_def framework_defs example_defs)
  from 1 2 3 4 5 6 7 exampleHost_reached [of 0 BaseClass Combinator] show ?thesis by simp
qed

lemma appliedBy_keeps:
  assumes "\<forall>f. keepsPrivate bd f"
  shows "\<forall>x \<in> set (DAList.impl_of reg). classApplyingMixin (snd x) = c
           \<longrightarrow> keepsPrivate bd (destroyMethod (snd x))"
  using assms by simp

text \<open>
  Claim C5, as the code has it. A second \<^verbatim>\<open>mixinDestroys\<close> for the same class, after a
  first one that left the registry in place, selects the same entries again, since
  entries are never removed one by one, and calls each of their finalizers again in the
  same reverse order, now on the host as the first call left it; it calls nothing only
  when the class has no entry. The counter does not go down: after the first call it holds
  the earlier count plus the number of finalizers called, and the second call adds the
  same number again unless the counter then equals the registry size, in which case
  registry and counter are removed. The finalizers are taken to leave the two private
  fields alone.
\<close>

theorem teardown_twice:
  assumes reg: "mixinsApplied H = Some reg"
    and keeps: "\<forall>x \<in> set (DAList.impl_of reg). classApplyingMixin (snd x) = C
                  \<longrightarrow> keepsPrivate bd (destroyMethod (snd x))"
    and nan: "mixinsDestroyed H \<noteq> CNaN"
    and first: "mixinDestroys bd C H = Inr (H1, evs1)"
    and live: "mixinsApplied H1 \<noteq> None"
    and second: "mixinDestroys bd C H1 = Inr (H2, evs2)"
  shows "callAll bd (finalizersIn C (DAList.impl_of reg)) (startCounter H) = Inr H1
       \<and> (\<exists>st2. callAll bd (finalizersIn C (DAList.impl_of reg)) H1 = Inr st2 \<and> H2 = retired st2)
       \<and> length (finalizersIn C (DAList.impl_of reg)) = length (appliedBy C reg)
       \<and> evs2 = map Destroy (rev (appliedBy C reg))
       \<and> evs2 = evs1
       \<and> (evs2 = [] \<longleftrightarrow> appliedBy C reg = [])
       \<and> mixinsDestroyed H1 = CNum (counted (mixinsDestroyed H) + length evs1)
       \<and> (mixinsApplied H2 = None \<and> mixinsDestroyed H2 = CUndefined
            \<and> counted (mixinsDestroyed H1) + length evs2 = length (DAList.impl_of reg)
          \<or> mixinsApplied H2 = Some reg
            \<and> mixinsDestroyed H2 = CNum (counted (mixinsDestroyed H1) + length evs2))"
proof -
  let ?k = "length (appliedBy C reg)"
  let ?fs = "finalizersIn C (DAList.impl_of reg)"
  from mixinDestroys_events [OF reg first] have evs1: "evs1 = map Destroy (rev (appliedBy C reg))" .
  from mixinDestroys_private [OF reg keeps nan first] live
  have reg1: "mixinsApplied H1 = Some reg"
    and cnt1: "mixinsDestroyed H1 = CNum (counted (mixinsDestroyed H) + ?k)"
    by (auto split: if_splits)
  from mixinDestroys_calls [OF reg first] obtain st1 where
    all1: "callAll bd ?fs (startCounter H) = Inr st1" and H1: "H1 = retired st1"
    by blast
  from H1 live have "H1 = st1"
    by (auto simp: retired_def split: option.splits if_splits)
  with all1 have calls1: "callAll bd ?fs (startCounter H) = Inr H1" by simp
  from cnt1 have "startCounter H1 = H1" by (rule startCounter_CNum)
  with mixinDestroys_calls [OF reg1 second]
  have calls2: "\<exists>st2. callAll bd ?fs H1 = Inr st2 \<and> H2 = retired st2"
    by auto
  from mixinDestroys_events [OF reg1 second] have evs2: "evs2 = map Destroy (rev (appliedBy C reg))" .
  from cnt1 have nan1: "mixinsDestroyed H1 \<noteq> CNaN" by simp
  from mixinDestroys_private [OF reg1 keeps nan1 second]
  have "mixinsApplied H2 = None \<and> mixinsDestroyed H2 = CUndefined
            \<and> counted (mixinsDestroyed H1) + ?k = length (DAList.impl_of reg)
          \<or> mixinsApplied H2 = Some reg
            \<and> mixinsDestroyed H2 = CNum (counted (mixinsDestroyed H1) + ?k)"
    by (auto split: if_splits)
  with evs1 evs2 cnt1 calls1 calls2 show ?thesis by (simp add: length_finalizersIn)
qed

lemma teardown_BaseClass_twice:
  "\<exists>H1 H2. mixinDestroys (exampleBodies (Suc k)) BaseClass (exampleHost BaseClass Combinator)
            = Inr (H1, [Destroy MixinNumber])
       \<and> mixinsApplied H1 \<noteq> None
       \<and> exampleBodies (Suc k) MixinNumber ''MixinNumberDestroy'' Undefined H1 = Inr (Undefined, H1)
       \<and> mixinDestroys (exampleBodies (Suc k)) BaseClass H1 = Inr (H2, [Destroy MixinNumber])"
  by (simp add: exampleHost_def framework_defs example_defs)

theorem teardown_twice_witness:
  "finalOf (runCalls exampleClasses (exampleBodies 1)
        [Inits BaseClass [Bare MixinNumber], Inits Combinator [With MixinString exampleConf False]]
        (newObject Combinator)) = Some (exampleHost BaseClass Combinator)
   \<and> mixinsDestroyed (exampleHost BaseClass Combinator) \<noteq> CNaN
   \<and> map_option registryOf (finalOf (mixinDestroys (exampleBodies 1) BaseClass
        (exampleHost BaseClass Combinator))) = Some (registryOf (exampleHost BaseClass Combinator))
   \<and> registryOf (exampleHost BaseClass Combinator) \<noteq> None
   \<and> eventsOf (runCalls exampleClasses (exampleBodies 1) [Destroys BaseClass, Destroys BaseClass]
        (exampleHost BaseClass Combinator)) = Some [[Destroy MixinNumber], [Destroy MixinNumber]]
   \<and> map_option mixinsDestroyed (finalOf (mixinDestroys (exampleBodies 1) BaseClass
        (exampleHost BaseClass Combinator))) = Some (CNum 1)
   \<and> map_option (\<lambda>H1. exampleBodies 1 MixinNumber ''MixinNumberDestroy'' Undefined H1
                         = Inr (Undefined, H1))
       (finalOf (mixinDestroys (exampleBodies 1) BaseClass (exampleHost BaseClass Combinator)))
       = Some True
   \<and> callAll (exampleBodies 1) [Fn MixinNumber ''MixinNumberDestroy'']
        (startCounter (exampleHost BaseClass Combinator))
       = map_sum id fst (mixinDestroys (exampleBodies 1) BaseClass (exampleHost BaseClass Combinator))"
proof -
  let ?H = "exampleHost BaseClass Combinator"
  let ?e1 = "\<lparr>classApplyingMixin = BaseClass, destroyMethod = Fn MixinNumber ''MixinNumberDestroy''\<rparr>"
  let ?e2 = "\<lparr>classApplyingMixin = Combinator, destroyMethod = Fn MixinString ''MixinStringDestroy''\<rparr>"
  let ?reg = "DAList.update MixinString ?e2 (DAList.update MixinNumber ?e1 DAList.empty)"
  have reg: "mixinsApplied ?H = Some ?reg" by (simp add: exampleHost_def)
  have keeps: "\<forall>x \<in> set (DAList.impl_of ?reg). classApplyingMixin (snd x) = BaseClass
                  \<longrightarrow> keepsPrivate (exampleBodies 1) (destroyMethod (snd x))"
    by (simp add: exampleBodies_keepsPrivate)
  have nan: "mixinsDestroyed ?H \<noteq> CNaN" by (simp add: exampleHost_def)
  from teardown_BaseClass_twice [of 0] obtain H1 H2 where
    first: "mixinDestroys (exampleBodies 1) BaseClass ?H = Inr (H1, [Destroy MixinNumber])"
    and live: "mixinsApplied H1 \<noteq> None"
    and body: "exampleBodies 1 MixinNumber ''MixinNumberDestroy'' Undefined H1 = Inr (Undefined, H1)"
    and second: "mixinDestroys (exampleBodies 1) BaseClass H1 = Inr (H2, [Destroy MixinNumber])"
    by auto
  have fins: "finalizersIn BaseClass (DAList.impl_of ?reg) = [Fn MixinNumber ''MixinNumberDestroy'']"
    by (simp add: finalizersIn_def exampleHost_registry)
  note fact = teardown_twice [OF reg keeps nan first live second]
  from fact [THEN conjunct1]
  have calls: "callAll (exampleBodies 1) [Fn MixinNumber ''MixinNumberDestroy''] (startCounter ?H)
                 = Inr H1"
    unfolding fins .
  from fact
  have cnt: "mixinsDestroyed H1 = CNum (counted (mixinsDestroyed ?H) + length [Destroy MixinNumber])"
    by blast
  then have cnt1: "mixinsDestroyed H1 = CNum 1"
    by (simp add: exampleHost_def counted_def)
  from mixinDestroys_private [OF reg keeps nan first] live have "mixinsApplied H1 = Some ?reg"
    by (auto split: if_splits)
  with reg have same: "registryOf H1 = registryOf ?H" by (simp add: registryOf_def)
  from reg have ex: "registryOf ?H \<noteq> None" by (simp add: registryOf_def)
  from first second
  have "runCalls exampleClasses (exampleBodies 1) [Destroys BaseClass, Destroys BaseClass] ?H
          = Inr (H2, [[Destroy MixinNumber], [Destroy MixinNumber]])"
    by simp
  with first nan same ex cnt1 body calls exampleHost_reached [of 0 BaseClass Combinator] show ?thesis
    by (simp add: eventsOf_def finalOf_def)
qed

text \<open>
  Claim C5 as the specification states it fails: on the host where \<^verbatim>\<open>BaseClass\<close> applied
  \<^verbatim>\<open>MixinNumber\<close> and \<^verbatim>\<open>Combinator\<close> applied \<^verbatim>\<open>MixinString\<close>, a first
  \<^verbatim>\<open>mixinDestroys(BaseClass)\<close> leaves the registry in place, and a second one calls the
  finalizer of \<^verbatim>\<open>MixinNumber\<close> again (and then removes the registry, the counter having
  reached two). What the second call does to the host shows when the field the
  finalizer deletes is there again: after the initializer of \<^verbatim>\<open>MixinNumber\<close> has run once
  more, \<^verbatim>\<open>myNumber\<close> is 1, and the second \<^verbatim>\<open>mixinDestroys(BaseClass)\<close> deletes it.
\<close>

theorem teardown_twice_counterexample:
  "map_option registryOf (finalOf (runCalls exampleClasses (exampleBodies 1) [Destroys BaseClass]
        (exampleHost BaseClass Combinator)))
     = Some (Some
        [(MixinNumber, \<lparr>classApplyingMixin = BaseClass,
                        destroyMethod = Fn MixinNumber ''MixinNumberDestroy''\<rparr>),
         (MixinString, \<lparr>classApplyingMixin = Combinator,
                        destroyMethod = Fn MixinString ''MixinStringDestroy''\<rparr>)])
   \<and> eventsOf (runCalls exampleClasses (exampleBodies 1) [Destroys BaseClass, Destroys BaseClass]
        (exampleHost BaseClass Combinator)) = Some [[Destroy MixinNumber], [Destroy MixinNumber]]
   \<and> map_option registryOf (finalOf (runCalls exampleClasses (exampleBodies 1)
        [Destroys BaseClass, Destroys BaseClass] (exampleHost BaseClass Combinator))) = Some None
   \<and> map_option (\<lambda>H. (own H ''myNumber'', mixinsDestroyed H, registryOf H \<noteq> None))
       (finalOf (runCalls exampleClasses (exampleBodies 1)
          [Destroys BaseClass, Inits BaseClass [With MixinNumber Undefined True]]
          (exampleHost BaseClass Combinator)))
     = Some (Some (Data (Num 1)), CNum 1, True)
   \<and> map_option (\<lambda>H. (own H ''myNumber'', mixinsDestroyed H, registryOf H \<noteq> None))
       (finalOf (runCalls exampleClasses (exampleBodies 1)
          [Destroys BaseClass, Inits BaseClass [With MixinNumber Undefined True], Destroys BaseClass]
          (exampleHost BaseClass Combinator)))
     = Some (None, CUndefined, False)"
proof -
  have "map_option registryOf (finalOf (runCalls exampleClasses (exampleBodies 1)
        [Destroys BaseClass] (exampleHost BaseClass Combinator)))
     = Some (Some
        [(MixinNumber, \<lparr>classApplyingMixin = BaseClass,
                        destroyMethod = Fn MixinNumber ''MixinNumberDestroy''\<rparr>),
         (MixinString, \<lparr>classApplyingMixin = Combinator,
                        destroyMethod = Fn MixinString ''MixinStringDestroy''\<rparr>)])"
    by (simp add: exampleHost_def registryOf_def finalOf_def framework_defs example_defs)
  moreover have "eventsOf (runCalls exampleClasses (exampleBodies 1)
        [Destroys BaseClass, Destroys BaseClass] (exampleHost BaseClass Combinator))
      = Some [[Destroy MixinNumber], [Destroy MixinNumber]]"
    by (simp add: exampleHost_def eventsOf_def framework_defs example_defs)
  moreover have "map_option registryOf (finalOf (runCalls exampleClasses (exampleBodies 1)
        [Destroys BaseClass, Destroys BaseClass] (exampleHost BaseClass Combinator))) = Some None"
    by (simp add: exampleHost_def registryOf_def finalOf_def framework_defs example_defs)
  moreover have "map_option (\<lambda>H. (own H ''myNumber'', mixinsDestroyed H, registryOf H \<noteq> None))
       (finalOf (runCalls exampleClasses (exampleBodies 1)
          [Destroys BaseClass, Inits BaseClass [With MixinNumber Undefined True]]
          (exampleHost BaseClass Combinator)))
     = Some (Some (Data (Num 1)), CNum 1, True)"
    by (simp add: exampleHost_def registryOf_def finalOf_def framework_defs example_defs)
  moreover have "map_option (\<lambda>H. (own H ''myNumber'', mixinsDestroyed H, registryOf H \<noteq> None))
       (finalOf (runCalls exampleClasses (exampleBodies 1)
          [Destroys BaseClass, Inits BaseClass [With MixinNumber Undefined True], Destroys BaseClass]
          (exampleHost BaseClass Combinator)))
     = Some (None, CUndefined, False)"
    by (simp add: exampleHost_def registryOf_def finalOf_def framework_defs example_defs)
  ultimately show ?thesis by blast
qed

lemma mixinInit_private:
  assumes kp: "\<forall>f. keepsPrivate bd f"
    and reg: "mixinsApplied st \<noteq> None"
    and run: "mixinInit ct bd c r (st, evs) = Inr (st', evs')"
  shows "mixinsApplied st' \<noteq> None \<and> mixinsDestroyed st' = mixinsDestroyed st"
proof (cases "hasMixin st (mixinOf r)")
  case False
  from mixinInit_new [OF False run] obtain v st2 reg2 f where
    call: "callMethod ct bd (cname (decl ct (mixinOf r))) (confOf r) (applyMixin ct (mixinOf r) st)
             = Inr (v, st2)"
    and st': "st' = st2\<lparr>mixinsApplied := Some (DAList.update (mixinOf r)
                 \<lparr>classApplyingMixin = c, destroyMethod = f\<rparr> reg2)\<rparr>"
    by blast
  from callMethod_private [OF kp call] st' show ?thesis by simp
next
  case True
  show ?thesis
  proof (cases "repeatInit st r")
    case False
    with True run reg show ?thesis by (simp add: mixinInit_old)
  next
    case rep: True
    with True run obtain v where
      "callMethod ct bd (cname (decl ct (mixinOf r))) (confOf r) st = Inr (v, st')"
      by (auto simp: mixinInit_old bindE_Inr_iff)
    from callMethod_private [OF kp this] reg show ?thesis by simp
  qed
qed

lemma forEach_mixinInit_private:
  assumes kp: "\<forall>f. keepsPrivate bd f"
  shows "mixinsApplied st \<noteq> None \<Longrightarrow> forEach (mixinInit ct bd c) rs (st, evs) = Inr (st', evs')
           \<Longrightarrow> mixinsApplied st' \<noteq> None \<and> mixinsDestroyed st' = mixinsDestroyed st"
proof (induction rs arbitrary: st evs)
  case Nil
  then show ?case by simp
next
  case (Cons r rs)
  from Cons.prems(2) obtain s1 evs1 where
    1: "mixinInit ct bd c r (st, evs) = Inr (s1, evs1)"
    and 2: "forEach (mixinInit ct bd c) rs (s1, evs1) = Inr (st', evs')"
    by (auto simp: bindE_Inr_iff)
  from mixinInit_private [OF kp Cons.prems(1) 1]
  have a: "mixinsApplied s1 \<noteq> None" and b: "mixinsDestroyed s1 = mixinsDestroyed st"
    by simp_all
  from Cons.IH [OF a 2] b show ?case by simp
qed

lemma mixinInits_private:
  assumes "\<forall>f. keepsPrivate bd f" and "mixinInits ct bd c rs H = Inr (H', evs)"
  shows "mixinsApplied H' \<noteq> None \<and> mixinsDestroyed H' = mixinsDestroyed H"
proof -
  have "mixinsApplied (ensureRegistry ct H) \<noteq> None"
    by (simp add: ensureRegistry_def)
  from forEach_mixinInit_private [OF assms(1) this] assms(2)
  have "mixinsApplied H' \<noteq> None \<and> mixinsDestroyed H' = mixinsDestroyed (ensureRegistry ct H)"
    by (simp add: mixinInits_eq)
  then show ?thesis by (simp add: ensureRegistry_def)
qed

lemma mixinDestroys_lifecycle:
  assumes kp: "\<forall>f. keepsPrivate bd f"
    and reg: "mixinsApplied H = Some reg"
    and nan: "mixinsDestroyed H \<noteq> CNaN"
    and run: "mixinDestroys bd c H = Inr (H', evs)"
  shows "if counted (mixinsDestroyed H) + length evs = length (DAList.impl_of reg)
         then mixinsApplied H' = None \<and> mixinsDestroyed H' = CUndefined
         else mixinsApplied H' = Some reg
            \<and> mixinsDestroyed H' = CNum (counted (mixinsDestroyed H) + length evs)"
proof -
  from mixinDestroys_events [OF reg run] have "length evs = length (appliedBy c reg)" by simp
  with mixinDestroys_private [OF reg appliedBy_keeps [OF kp] nan run] show ?thesis by simp
qed

lemma runCall_invariant:
  assumes kp: "\<forall>f. keepsPrivate bd f"
    and inv: "(mixinsApplied H = None \<longrightarrow> mixinsDestroyed H = CUndefined) \<and> mixinsDestroyed H \<noteq> CNaN"
    and run: "runCall ct bd x H = Inr (H', evs)"
  shows "(mixinsApplied H' = None \<longrightarrow> mixinsDestroyed H' = CUndefined) \<and> mixinsDestroyed H' \<noteq> CNaN"
proof (cases x)
  case (Inits c rs)
  with run have "mixinInits ct bd c rs H = Inr (H', evs)" by simp
  from mixinInits_private [OF kp this] inv show ?thesis by auto
next
  case (Destroys c)
  with run have d: "mixinDestroys bd c H = Inr (H', evs)" by simp
  show ?thesis
  proof (cases "mixinsApplied H")
    case None
    with d inv show ?thesis by (simp add: mixinDestroys_None)
  next
    case (Some reg)
    from inv have "mixinsDestroyed H \<noteq> CNaN" by simp
    from mixinDestroys_lifecycle [OF kp Some this d] show ?thesis
      by (auto split: if_splits)
  qed
qed

lemma runCalls_invariant:
  assumes kp: "\<forall>f. keepsPrivate bd f"
  shows "(mixinsApplied H = None \<longrightarrow> mixinsDestroyed H = CUndefined) \<and> mixinsDestroyed H \<noteq> CNaN
           \<Longrightarrow> runCalls ct bd xs H = Inr (H', evss)
           \<Longrightarrow> (mixinsApplied H' = None \<longrightarrow> mixinsDestroyed H' = CUndefined)
               \<and> mixinsDestroyed H' \<noteq> CNaN"
proof (induction xs arbitrary: H evss)
  case Nil
  then show ?case by simp
next
  case (Cons x xs)
  from Cons.prems(2) obtain H1 evs1 evss1 where
    1: "runCall ct bd x H = Inr (H1, evs1)"
    and 2: "runCalls ct bd xs H1 = Inr (H', evss1)"
    by (auto simp: bindE_Inr_iff)
  show ?case
    by (rule Cons.IH [OF runCall_invariant [OF kp Cons.prems(1) 1] 2])
qed

text \<open>
  Claim C6, as the code has it. The registry is made by \<^verbatim>\<open>mixinInits\<close>, which leaves the
  counter as it is; the counter is made by the first \<^verbatim>\<open>mixinDestroys\<close> that finds a
  registry. A \<^verbatim>\<open>mixinDestroys\<close> that finds no registry does nothing. One that finds a
  registry removes registry and counter exactly when the count of finalizers called so
  far equals the registry size, and otherwise leaves the registry as it was and the
  counter at that count. So through every sequence of calls on a new host the counter
  exists only while the registry does. The methods of the mixins are taken to leave the
  two private fields alone.
\<close>

theorem registry_lifecycle:
  assumes kp: "\<forall>f. keepsPrivate bd f"
  shows "(\<forall>c rs H H' evs. mixinInits ct bd c rs H = Inr (H', evs) \<longrightarrow>
            mixinsApplied H' \<noteq> None \<and> mixinsDestroyed H' = mixinsDestroyed H)
       \<and> (\<forall>c H. mixinsApplied H = None \<longrightarrow> mixinDestroys bd c H = Inr (H, []))
       \<and> (\<forall>c H reg H' evs. mixinsApplied H = Some reg \<longrightarrow> mixinsDestroyed H \<noteq> CNaN \<longrightarrow>
            mixinDestroys bd c H = Inr (H', evs) \<longrightarrow>
            (if counted (mixinsDestroyed H) + length evs = length (DAList.impl_of reg)
             then mixinsApplied H' = None \<and> mixinsDestroyed H' = CUndefined
             else mixinsApplied H' = Some reg
                \<and> mixinsDestroyed H' = CNum (counted (mixinsDestroyed H) + length evs)))
       \<and> (\<forall>xs H H' evss. mixinsApplied H = None \<longrightarrow> mixinsDestroyed H = CUndefined \<longrightarrow>
            runCalls ct bd xs H = Inr (H', evss) \<longrightarrow>
            (mixinsDestroyed H' \<noteq> CUndefined \<longrightarrow> mixinsApplied H' \<noteq> None)
            \<and> mixinsDestroyed H' \<noteq> CNaN)"
proof (intro conjI allI impI)
  fix c rs and H H' :: state and evs
  assume "mixinInits ct bd c rs H = Inr (H', evs)"
  from mixinInits_private [OF kp this]
  show "mixinsApplied H' \<noteq> None" and "mixinsDestroyed H' = mixinsDestroyed H" by simp_all
next
  fix c and H :: state
  assume "mixinsApplied H = None"
  then show "mixinDestroys bd c H = Inr (H, [])" by (rule mixinDestroys_None)
next
  fix c reg evs and H H' :: state
  assume "mixinsApplied H = Some reg" "mixinsDestroyed H \<noteq> CNaN"
    "mixinDestroys bd c H = Inr (H', evs)"
  then show "if counted (mixinsDestroyed H) + length evs = length (DAList.impl_of reg)
             then mixinsApplied H' = None \<and> mixinsDestroyed H' = CUndefined
             else mixinsApplied H' = Some reg
                \<and> mixinsDestroyed H' = CNum (counted (mixinsDestroyed H) + length evs)"
    by (rule mixinDestroys_lifecycle [OF kp])
next
  fix xs evss and H H' :: state
  assume a: "mixinsApplied H = None" "mixinsDestroyed H = CUndefined"
    "runCalls ct bd xs H = Inr (H', evss)"
  then have "(mixinsApplied H = None \<longrightarrow> mixinsDestroyed H = CUndefined) \<and> mixinsDestroyed H \<noteq> CNaN"
    by simp
  from runCalls_invariant [OF kp this a(3)]
  have r: "(mixinsApplied H' = None \<longrightarrow> mixinsDestroyed H' = CUndefined) \<and> mixinsDestroyed H' \<noteq> CNaN" .
  then show "mixinsDestroyed H' \<noteq> CNaN" by simp
  assume "mixinsDestroyed H' \<noteq> CUndefined"
  with r show "mixinsApplied H' \<noteq> None" by blast
qed

theorem registry_lifecycle_witness:
  "mixinsApplied (newObject Combinator) = None
   \<and> mixinsDestroyed (newObject Combinator) = CUndefined
   \<and> finalOf (runCalls exampleClasses (exampleBodies 1)
        [Inits BaseClass [Bare MixinNumber], Inits Combinator [With MixinString exampleConf False]]
        (newObject Combinator)) = Some (exampleHost BaseClass Combinator)
   \<and> registryOf (exampleHost BaseClass Combinator) \<noteq> None
   \<and> mixinsDestroyed (exampleHost BaseClass Combinator) = CUndefined
   \<and> map_option registryOf (finalOf (mixinDestroys (exampleBodies 1) Combinator
        (exampleHost BaseClass Combinator))) = Some (registryOf (exampleHost BaseClass Combinator))
   \<and> map_option mixinsDestroyed (finalOf (mixinDestroys (exampleBodies 1) Combinator
        (exampleHost BaseClass Combinator))) = Some (CNum 1)
   \<and> map_option registryOf (finalOf (runCalls exampleClasses (exampleBodies 1)
        [Destroys Combinator, Destroys BaseClass] (exampleHost BaseClass Combinator))) = Some None
   \<and> map_option mixinsDestroyed (finalOf (runCalls exampleClasses (exampleBodies 1)
        [Destroys Combinator, Destroys BaseClass] (exampleHost BaseClass Combinator)))
       = Some CUndefined"
proof -
  let ?H = "exampleHost BaseClass Combinator"
  let ?bd = "exampleBodies 1"
  let ?e1 = "\<lparr>classApplyingMixin = BaseClass, destroyMethod = Fn MixinNumber ''MixinNumberDestroy''\<rparr>"
  let ?e2 = "\<lparr>classApplyingMixin = Combinator, destroyMethod = Fn MixinString ''MixinStringDestroy''\<rparr>"
  let ?reg = "DAList.update MixinString ?e2 (DAList.update MixinNumber ?e1 DAList.empty)"
  have kp: "\<forall>f. keepsPrivate ?bd f" by (simp add: exampleBodies_keepsPrivate)
  note life = registry_lifecycle [OF kp, of exampleClasses]
  have new: "mixinsApplied (newObject Combinator) = None"
    "mixinsDestroyed (newObject Combinator) = CUndefined"
    by (simp_all add: newObject_def)
  have reg: "mixinsApplied ?H = Some ?reg" and cnt: "mixinsDestroyed ?H = CUndefined"
    by (simp_all add: exampleHost_def)
  have size: "length (DAList.impl_of ?reg) = 2" by (simp add: exampleHost_registry)
  have "\<exists>H1 H2. mixinDestroys ?bd Combinator ?H = Inr (H1, [Destroy MixinString])
           \<and> mixinDestroys ?bd BaseClass H1 = Inr (H2, [Destroy MixinNumber])"
    by (simp add: exampleHost_def framework_defs example_defs)
  then obtain H1 H2 where
    first: "mixinDestroys ?bd Combinator ?H = Inr (H1, [Destroy MixinString])"
    and second: "mixinDestroys ?bd BaseClass H1 = Inr (H2, [Destroy MixinNumber])"
    by blast
  note step = life [THEN conjunct2, THEN conjunct2, THEN conjunct1, rule_format]
  from cnt have nan: "mixinsDestroyed ?H \<noteq> CNaN" by simp
  from step [OF reg nan first] cnt size
  have H1: "mixinsApplied H1 = Some ?reg" "mixinsDestroyed H1 = CNum 1"
    by (simp_all add: counted_def)
  then have nan1: "mixinsDestroyed H1 \<noteq> CNaN" by simp
  from step [OF H1(1) nan1 second] H1(2) size
  have H2: "mixinsApplied H2 = None" "mixinsDestroyed H2 = CUndefined"
    by (simp_all add: counted_def)
  from first second
  have runs: "runCalls exampleClasses ?bd [Destroys Combinator, Destroys BaseClass] ?H
          = Inr (H2, [[Destroy MixinString], [Destroy MixinNumber]])"
    by simp
  from reg have ex: "registryOf ?H \<noteq> None" by (simp add: registryOf_def)
  from H1 reg have same: "registryOf H1 = registryOf ?H" by (simp add: registryOf_def)
  from new cnt first runs H1 H2 ex same exampleHost_reached [of 0 BaseClass Combinator]
  show ?thesis
    by (simp add: finalOf_def registryOf_def)
qed

text \<open>
  Claim C6 as the specification states it fails. After \<^verbatim>\<open>new Combinator()\<close>-like
  composition, two attachments are outstanding and the registry exists, but there is no
  counter: it is not created on first attachment. A \<^verbatim>\<open>mixinInits\<close> without mixins makes
  a registry although nothing is attached. And a class that tears down twice makes the
  counter reach the registry size, which removes the registry while the attachment of
  another class is outstanding, its finalizer never called.
\<close>

theorem registry_lifecycle_counterexample:
  "finalOf (runCalls exampleClasses (exampleBodies 1)
        [Inits Combinator [Bare MixinNumber], Inits Combinator [With MixinString exampleConf False]]
        (newObject Combinator)) = Some (exampleHost Combinator Combinator)
   \<and> registryOf (exampleHost Combinator Combinator)
       = Some [(MixinNumber, \<lparr>classApplyingMixin = Combinator,
                               destroyMethod = Fn MixinNumber ''MixinNumberDestroy''\<rparr>),
               (MixinString, \<lparr>classApplyingMixin = Combinator,
                               destroyMethod = Fn MixinString ''MixinStringDestroy''\<rparr>)]
   \<and> mixinsDestroyed (exampleHost Combinator Combinator) = CUndefined
   \<and> map_option registryOf (finalOf (mixinInits exampleClasses (exampleBodies 1) Combinator []
        (newObject Combinator))) = Some (Some [])
   \<and> eventsOf (runCalls exampleClasses (exampleBodies 1) [Destroys BaseClass, Destroys BaseClass]
        (exampleHost BaseClass Combinator)) = Some [[Destroy MixinNumber], [Destroy MixinNumber]]
   \<and> map_option registryOf (finalOf (runCalls exampleClasses (exampleBodies 1)
        [Destroys BaseClass, Destroys BaseClass] (exampleHost BaseClass Combinator))) = Some None"
proof -
  have "finalOf (runCalls exampleClasses (exampleBodies 1)
        [Inits Combinator [Bare MixinNumber], Inits Combinator [With MixinString exampleConf False]]
        (newObject Combinator)) = Some (exampleHost Combinator Combinator)"
    using exampleHost_reached [of 0 Combinator Combinator] by simp
  moreover have "registryOf (exampleHost Combinator Combinator)
       = Some [(MixinNumber, \<lparr>classApplyingMixin = Combinator,
                               destroyMethod = Fn MixinNumber ''MixinNumberDestroy''\<rparr>),
               (MixinString, \<lparr>classApplyingMixin = Combinator,
                               destroyMethod = Fn MixinString ''MixinStringDestroy''\<rparr>)]"
    "mixinsDestroyed (exampleHost Combinator Combinator) = CUndefined"
    by (simp_all add: registryOf_def exampleHost_def exampleHost_registry)
  moreover have "map_option registryOf (finalOf (mixinInits exampleClasses (exampleBodies 1)
        Combinator [] (newObject Combinator))) = Some (Some [])"
    by (simp add: registryOf_def finalOf_def framework_defs example_defs)
  moreover have "eventsOf (runCalls exampleClasses (exampleBodies 1)
        [Destroys BaseClass, Destroys BaseClass] (exampleHost BaseClass Combinator))
        = Some [[Destroy MixinNumber], [Destroy MixinNumber]]"
    "map_option registryOf (finalOf (runCalls exampleClasses (exampleBodies 1)
        [Destroys BaseClass, Destroys BaseClass] (exampleHost BaseClass Combinator))) = Some None"
    by (simp_all add: exampleHost_def registryOf_def eventsOf_def finalOf_def
          framework_defs example_defs)
  ultimately show ?thesis by blast
qed

end
